theory Spec2Isabelle
  imports Complex_Main "HOL-Library.Word"
begin

section \<open>The MNIST data loader of DigitNetJS (js/data.js)\<close>

text \<open>
  The class \<open>MnistData\<close> is embedded as a record of its fields and its methods as
  functions that take the object and return it updated.  A typed array is a list, a field
  that holds \<open>null\<close> is \<open>None\<close>, a thrown exception is the left injection of a sum.
  A \<open>Float32Array\<close> element is a \<open>real\<close>; the rounding of a stored value to 32 bits
  is the parameter \<open>f32\<close> of the decoder.  A \<open>Uint8Array\<close> element is an 8-bit word.
\<close>

subsection \<open>Constants\<close>

type_synonym uint8 = "8 word"

definition IMAGE_SIZE :: nat where
  "IMAGE_SIZE = 784"

definition NUM_CLASSES :: nat where
  "NUM_CLASSES = 10"

definition NUM_DATASET_ELEMENTS :: nat where
  "NUM_DATASET_ELEMENTS = 65000"

definition TRAIN_TEST_RATIO :: real where
  "TRAIN_TEST_RATIO = 5 / 6"

definition NUM_TRAIN_ELEMENTS :: nat where
  \<comment> \<open>\<open>Math.floor(TRAIN_TEST_RATIO * NUM_DATASET_ELEMENTS)\<close>; the product is
      54166.66..., far from an integer, so the rounding of doubles does not change the floor\<close>
  "NUM_TRAIN_ELEMENTS = nat \<lfloor>TRAIN_TEST_RATIO * real NUM_DATASET_ELEMENTS\<rfloor>"

definition NUM_TEST_ELEMENTS :: nat where
  "NUM_TEST_ELEMENTS = NUM_DATASET_ELEMENTS - NUM_TRAIN_ELEMENTS"

definition MAX_RETRIES :: nat where
  "MAX_RETRIES = 3"

definition RETRY_DELAY :: nat where
  "RETRY_DELAY = 1000"

subsection \<open>Errors, numbers and typed arrays\<close>

text \<open>
  Every \<open>new Error(...)\<close> of the source is a constructor; an error built from the
  message of another one carries that error.  \<open>TypeError\<close> and \<open>RangeError\<close> are the
  exceptions of the language itself (a property read on \<open>null\<close>, a typed-array view or
  \<open>set\<close> outside its buffer), \<open>IndexSizeError\<close> the one of \<open>getImageData\<close> on an
  empty rectangle.
\<close>

datatype error =
    ImagesEmptyOrInvalid
  | LabelsEmptyOrInvalid
  | InvalidImageDataSize nat nat
  | InvalidLabelDataSize nat nat
  | FailedToLoadDataset error
  | FailedToProcessImages error
  | FailedToLoadSprite
  | ImageLoadTimeout
  | HttpError nat
  | FailedToLoadLabels error
  | TypeError
  | RangeError
  | IndexSizeError
  | NetworkError string

text \<open>A cursor is a JavaScript number: a natural number, or \<open>NaN\<close> (from \<open>% 0\<close>).\<close>

datatype jsnum = Num nat | NaN

definition js_succ_mod :: "jsnum \<Rightarrow> nat \<Rightarrow> jsnum" where
  \<comment> \<open>\<open>(c + 1) % len\<close>\<close>
  "js_succ_mod c len =
     (case c of NaN \<Rightarrow> NaN
      | Num n \<Rightarrow> if len = 0 then NaN else Num ((n + 1) mod len))"

definition js_index :: "'a list \<Rightarrow> jsnum \<Rightarrow> 'a option" where
  \<comment> \<open>\<open>xs[c]\<close>: \<open>undefined\<close> (here \<open>None\<close>) out of range or at \<open>NaN\<close>\<close>
  "js_index xs c =
     (case c of NaN \<Rightarrow> None
      | Num n \<Rightarrow> if n < length xs then Some (xs ! n) else None)"

definition slice :: "'a list \<Rightarrow> nat \<Rightarrow> nat \<Rightarrow> 'a list" where
  \<comment> \<open>\<open>xs.slice(b, e)\<close> on a typed array: both ends are clamped to the length\<close>
  "slice xs b e =
     (let b' = min b (length xs); e' = min e (length xs)
      in take (e' - b') (drop b' xs))"

definition slice_from :: "'a list \<Rightarrow> nat \<Rightarrow> 'a list" where
  \<comment> \<open>\<open>xs.slice(b)\<close>\<close>
  "slice_from xs b = slice xs b (length xs)"

definition slice_record :: "'a list \<Rightarrow> nat option \<Rightarrow> nat \<Rightarrow> 'a list" where
  \<comment> \<open>\<open>xs.slice(idx * size, idx * size + size)\<close>; at \<open>idx = undefined\<close> both
      arguments are \<open>NaN\<close>, which \<open>slice\<close> reads as 0\<close>
  "slice_record xs idx sz =
     (case idx of None \<Rightarrow> slice xs 0 0
      | Some k \<Rightarrow> slice xs (k * sz) (k * sz + sz))"

definition typed_set :: "'a list \<Rightarrow> 'a list \<Rightarrow> nat \<Rightarrow> error + 'a list" where
  \<comment> \<open>\<open>target.set(source, offset)\<close>: a \<open>RangeError\<close> when the source does not fit\<close>
  "typed_set target source offset =
     (if offset + length source > length target then Inl RangeError
      else Inr (take offset target @ source @ drop (offset + length source) target))"

subsection \<open>The object\<close>

record MnistData =
  shuffledTrainIndex :: jsnum
  shuffledTestIndex :: jsnum
  datasetImages :: "real list option"
  datasetLabels :: "uint8 list option"
  trainIndices :: "nat list option"
  testIndices :: "nat list option"
  trainImages :: "real list option"
  testImages :: "real list option"
  trainLabels :: "uint8 list option"
  testLabels :: "uint8 list option"

definition constructor :: MnistData where
  "constructor =
     \<lparr> shuffledTrainIndex = Num 0, shuffledTestIndex = Num 0,
       datasetImages = None, datasetLabels = None,
       trainIndices = None, testIndices = None,
       trainImages = None, testImages = None,
       trainLabels = None, testLabels = None \<rparr>"

subsection \<open>Batches\<close>

record 'a tensor2d =
  tvalues :: "'a list"
  tshape :: "nat \<times> nat"

definition tensor2d :: "'a list \<Rightarrow> nat \<times> nat \<Rightarrow> 'a tensor2d" where
  \<comment> \<open>Modelled from the spec: \<open>tf.tensor2d\<close> belongs to the tensor library, which is not
      part of the repository; the spec describes it as a facility that accepts a flat
      buffer and a shape and packages them.\<close>
  "tensor2d buf sh = \<lparr> tvalues = buf, tshape = sh \<rparr>"

text \<open>The object \<open>{ xs, labels }\<close> that \<open>nextBatch\<close> returns.\<close>

record batch =
  batch_xs :: "real tensor2d"
  batch_labels :: "uint8 tensor2d"

text \<open>
  The body of the \<open>for\<close> loop of \<open>nextBatch\<close>, for \<open>n\<close> remaining rounds from
  position \<open>i\<close>.  \<open>index\<close> is the closure handed in by the caller: it updates the object
  and returns the drawn index.  An exception leaves the object as it was when thrown.
  A batch size is a natural number.
\<close>

fun nextBatch_loop ::
  "nat \<Rightarrow> nat \<Rightarrow> real list option \<times> uint8 list option \<Rightarrow>
   (MnistData \<Rightarrow> (error + nat option) \<times> MnistData) \<Rightarrow>
   real list \<times> uint8 list \<Rightarrow> MnistData \<Rightarrow> (error + real list \<times> uint8 list) \<times> MnistData"
where
  "nextBatch_loop 0 i data index arrays s = (Inr arrays, s)"
| "nextBatch_loop (Suc n) i data index arrays s =
     (case index s of
        (Inl e, s') \<Rightarrow> (Inl e, s')
      | (Inr idx, s') \<Rightarrow>
          (case fst data of
             None \<Rightarrow> (Inl TypeError, s')
           | Some images \<Rightarrow>
               (case typed_set (fst arrays) (slice_record images idx IMAGE_SIZE)
                       (i * IMAGE_SIZE) of
                  Inl e \<Rightarrow> (Inl e, s')
                | Inr batchImagesArray \<Rightarrow>
                    (case snd data of
                       None \<Rightarrow> (Inl TypeError, s')
                     | Some lbls \<Rightarrow>
                         (case typed_set (snd arrays) (slice_record lbls idx NUM_CLASSES)
                                 (i * NUM_CLASSES) of
                            Inl e \<Rightarrow> (Inl e, s')
                          | Inr batchLabelsArray \<Rightarrow>
                              nextBatch_loop n (Suc i) data index
                                (batchImagesArray, batchLabelsArray) s')))))"

definition nextBatch ::
  "nat \<Rightarrow> real list option \<times> uint8 list option \<Rightarrow>
   (MnistData \<Rightarrow> (error + nat option) \<times> MnistData) \<Rightarrow>
   MnistData \<Rightarrow> (error + batch) \<times> MnistData"
where
  "nextBatch batchSize data index s =
     (case nextBatch_loop batchSize 0 data index
             (replicate (batchSize * IMAGE_SIZE) 0, replicate (batchSize * NUM_CLASSES) 0) s of
        (Inl e, s') \<Rightarrow> (Inl e, s')
      | (Inr (batchImagesArray, batchLabelsArray), s') \<Rightarrow>
          (Inr \<lparr> batch_xs = tensor2d batchImagesArray (batchSize, IMAGE_SIZE),
                 batch_labels = tensor2d batchLabelsArray (batchSize, NUM_CLASSES) \<rparr>, s'))"

definition trainIndex :: "MnistData \<Rightarrow> (error + nat option) \<times> MnistData" where
  \<comment> \<open>the closure of \<open>nextTrainBatch\<close>; \<open>this.trainIndices.length\<close> throws on \<open>null\<close>
      before the cursor is assigned\<close>
  "trainIndex s =
     (case trainIndices s of
        None \<Rightarrow> (Inl TypeError, s)
      | Some perm \<Rightarrow>
          (let s' = s\<lparr>shuffledTrainIndex := js_succ_mod (shuffledTrainIndex s) (length perm)\<rparr>
           in (case trainIndices s' of
                 None \<Rightarrow> (Inl TypeError, s')
               | Some perm' \<Rightarrow> (Inr (js_index perm' (shuffledTrainIndex s')), s'))))"

definition testIndex :: "MnistData \<Rightarrow> (error + nat option) \<times> MnistData" where
  "testIndex s =
     (case testIndices s of
        None \<Rightarrow> (Inl TypeError, s)
      | Some perm \<Rightarrow>
          (let s' = s\<lparr>shuffledTestIndex := js_succ_mod (shuffledTestIndex s) (length perm)\<rparr>
           in (case testIndices s' of
                 None \<Rightarrow> (Inl TypeError, s')
               | Some perm' \<Rightarrow> (Inr (js_index perm' (shuffledTestIndex s')), s'))))"

definition nextTrainBatch :: "nat \<Rightarrow> MnistData \<Rightarrow> (error + batch) \<times> MnistData" where
  "nextTrainBatch batchSize s =
     nextBatch batchSize (trainImages s, trainLabels s) trainIndex s"

definition nextTestBatch :: "nat \<Rightarrow> MnistData \<Rightarrow> (error + batch) \<times> MnistData" where
  "nextTestBatch batchSize s =
     nextBatch batchSize (testImages s, testLabels s) testIndex s"

subsection \<open>The retry wrappers\<close>

text \<open>
  \<open>this.loadImages()\<close> and \<open>this.loadLabels()\<close> depend on the network, so the wrapped
  operation is a function from the number of the attempt to what that attempt does: it
  throws (\<open>Inl\<close>) or returns a value.  A wrapper reports what it returns or throws
  (\<open>Inr None\<close> is the \<open>undefined\<close> of a loop that never ran), how often it called the
  operation, and the waits it made between attempts, in milliseconds and in order.
\<close>

record 'a retried =
  outcome :: "error + 'a option"
  attempts :: nat
  delays :: "nat list"

function loadImagesWithRetry_loop ::
  "(nat \<Rightarrow> error + real list) \<Rightarrow> nat \<Rightarrow> nat \<Rightarrow> real list retried" where
  "loadImagesWithRetry_loop loadImages retries attempt =
     (if attempt \<le> retries then
        (case loadImages attempt of
           Inr v \<Rightarrow> \<lparr> outcome = Inr (Some v), attempts = 1, delays = [] \<rparr>
         | Inl e \<Rightarrow>
             if attempt = retries then \<lparr> outcome = Inl e, attempts = 1, delays = [] \<rparr>
             else (let r = loadImagesWithRetry_loop loadImages retries (attempt + 1)
                   in r\<lparr> attempts := attempts r + 1,
                         delays := RETRY_DELAY * attempt # delays r \<rparr>))
      else \<lparr> outcome = Inr None, attempts = 0, delays = [] \<rparr>)"
  by pat_completeness auto
termination
  by (relation "measure (\<lambda>(loadImages, retries, attempt). Suc retries - attempt)") auto

definition loadImagesWithRetry ::
  "(nat \<Rightarrow> error + real list) \<Rightarrow> nat \<Rightarrow> real list retried" where
  "loadImagesWithRetry loadImages retries = loadImagesWithRetry_loop loadImages retries 1"

function loadLabelsWithRetry_loop ::
  "(nat \<Rightarrow> error + uint8 list) \<Rightarrow> nat \<Rightarrow> nat \<Rightarrow> uint8 list retried" where
  "loadLabelsWithRetry_loop loadLabels retries attempt =
     (if attempt \<le> retries then
        (case loadLabels attempt of
           Inr v \<Rightarrow> \<lparr> outcome = Inr (Some v), attempts = 1, delays = [] \<rparr>
         | Inl e \<Rightarrow>
             if attempt = retries then \<lparr> outcome = Inl e, attempts = 1, delays = [] \<rparr>
             else (let r = loadLabelsWithRetry_loop loadLabels retries (attempt + 1)
                   in r\<lparr> attempts := attempts r + 1,
                         delays := RETRY_DELAY * attempt # delays r \<rparr>))
      else \<lparr> outcome = Inr None, attempts = 0, delays = [] \<rparr>)"
  by pat_completeness auto
termination
  by (relation "measure (\<lambda>(loadLabels, retries, attempt). Suc retries - attempt)") auto

definition loadLabelsWithRetry ::
  "(nat \<Rightarrow> error + uint8 list) \<Rightarrow> nat \<Rightarrow> uint8 list retried" where
  "loadLabelsWithRetry loadLabels retries = loadLabelsWithRetry_loop loadLabels retries 1"

subsection \<open>The sprite decoder\<close>

text \<open>
  A decoded image: its width and height in pixels and its pixels, row by row, four bytes
  (red, green, blue, alpha) each.
\<close>

record sprite =
  naturalWidth :: nat
  naturalHeight :: nat
  pixels :: "uint8 list"

definition chunkSize :: nat where
  "chunkSize = 5000"

definition drawImage :: "sprite \<Rightarrow> nat \<Rightarrow> nat \<Rightarrow> uint8 list \<Rightarrow> uint8 list" where
  \<comment> \<open>Modelled from the spec: the canvas belongs to the platform, which the spec describes
      as an image-decoding facility that exposes the channel values of a sub-region.
      \<open>drawImage img sy rows canvas\<close> puts the rows \<open>[sy, sy + rows)\<close> of an opaque
      image at the top of a canvas as wide as the image; the source rectangle is clipped to
      the image, so rows that the image does not have leave the canvas as it was.\<close>
  "drawImage img sy rows canvas =
     (let src = take (rows * (4 * naturalWidth img)) (drop (sy * (4 * naturalWidth img)) (pixels img))
      in src @ drop (length src) canvas)"

definition getImageData :: "uint8 list \<Rightarrow> nat \<Rightarrow> nat \<Rightarrow> error + uint8 list" where
  \<comment> \<open>Modelled from the spec: the bytes of the whole canvas; the platform refuses an empty
      rectangle.\<close>
  "getImageData canvas w h = (if w = 0 \<or> h = 0 then Inl IndexSizeError else Inr canvas)"

definition write_chunk ::
  "(real \<Rightarrow> real) \<Rightarrow> uint8 list \<Rightarrow> nat \<Rightarrow> nat \<Rightarrow> real list \<Rightarrow> real list" where
  \<comment> \<open>the inner loop: \<open>datasetBytesView[j] = imageData.data[j * 4] / 255\<close> for every
      pixel \<open>j\<close>, through a view of \<open>len\<close> elements at element \<open>off\<close> of the buffer; a
      write past the end of a view is ignored\<close>
  "write_chunk f32 data off len buffer =
     fold (\<lambda>j buf. if j < len then buf[off + j := f32 (real (unat (data ! (j * 4))) / 255)] else buf)
       [0..<length data div 4] buffer"

text \<open>
  The loop over the chunks, \<open>for (let i = 0; i < NUM_DATASET_ELEMENTS / chunkSize; i++)\<close>.
  The view of chunk \<open>i\<close> starts at byte \<open>i * IMAGE_SIZE * chunkSize * 4\<close> of a buffer
  of \<open>NUM_DATASET_ELEMENTS * IMAGE_SIZE * 4\<close> bytes and has \<open>IMAGE_SIZE * chunkSize\<close>
  elements; a view that does not fit its buffer is a \<open>RangeError\<close>.  The canvas is not
  cleared between the chunks.
\<close>

function decode_chunks ::
  "(real \<Rightarrow> real) \<Rightarrow> sprite \<Rightarrow> nat \<Rightarrow> uint8 list \<Rightarrow> real list \<Rightarrow> error + real list" where
  "decode_chunks f32 img i canvas buffer =
     (if i * chunkSize < NUM_DATASET_ELEMENTS then
        (if i * IMAGE_SIZE * chunkSize * 4 + IMAGE_SIZE * chunkSize * 4
              > NUM_DATASET_ELEMENTS * IMAGE_SIZE * 4
         then Inl RangeError
         else (let canvas' = drawImage img (i * chunkSize) chunkSize canvas
               in case getImageData canvas' (naturalWidth img) chunkSize of
                    Inl e \<Rightarrow> Inl e
                  | Inr data \<Rightarrow>
                      decode_chunks f32 img (i + 1) canvas'
                        (write_chunk f32 data (i * IMAGE_SIZE * chunkSize)
                           (IMAGE_SIZE * chunkSize) buffer)))
      else Inr buffer)"
  by pat_completeness auto
termination
  by (relation "measure (\<lambda>(f32, img, i, canvas, buffer). NUM_DATASET_ELEMENTS - i * chunkSize)")
     (auto simp: chunkSize_def)

definition decode_sprite :: "(real \<Rightarrow> real) \<Rightarrow> sprite \<Rightarrow> error + real list" where
  \<comment> \<open>the body of \<open>img.onload\<close>: a zeroed buffer of \<open>NUM_DATASET_ELEMENTS * IMAGE_SIZE\<close>
      floats, a transparent canvas of \<open>chunkSize\<close> rows, then the chunks; whatever is
      thrown is rejected as a processing failure\<close>
  "decode_sprite f32 img =
     (case decode_chunks f32 img 0
             (replicate (4 * naturalWidth img * chunkSize) 0)
             (replicate (NUM_DATASET_ELEMENTS * IMAGE_SIZE) 0) of
        Inl e \<Rightarrow> Inl (FailedToProcessImages e)
      | Inr decoded \<Rightarrow> Inr decoded)"

text \<open>What settles the promise of \<open>loadImages\<close> first.\<close>

datatype image_event = OnLoad sprite | OnError | OnTimeout

definition loadImages :: "(real \<Rightarrow> real) \<Rightarrow> image_event \<Rightarrow> error + real list" where
  "loadImages f32 ev =
     (case ev of
        OnLoad img \<Rightarrow> decode_sprite f32 img
      | OnError \<Rightarrow> Inl FailedToLoadSprite
      | OnTimeout \<Rightarrow> Inl ImageLoadTimeout)"

text \<open>
  The canvas before round \<open>i\<close> of the loop, and \<open>imageData\<close> of round \<open>i\<close>: the
  bytes of the canvas once the rows of chunk \<open>i\<close> are drawn on it.
\<close>

fun canvas_before :: "sprite \<Rightarrow> nat \<Rightarrow> uint8 list" where
  "canvas_before img 0 = replicate (4 * naturalWidth img * chunkSize) 0"
| "canvas_before img (Suc i) = drawImage img (i * chunkSize) chunkSize (canvas_before img i)"

definition chunk_imageData :: "sprite \<Rightarrow> nat \<Rightarrow> uint8 list" where
  "chunk_imageData img i = canvas_before img (Suc i)"

definition opaque :: "sprite \<Rightarrow> bool" where
  \<comment> \<open>every alpha byte is 255; on such an image drawing copies the bytes\<close>
  "opaque img = (\<forall>p \<in> {0..<length (pixels img) div 4}. pixels img ! (4 * p + 3) = 255)"

text \<open>What \<open>fetch\<close> does: it rejects, or it answers with a status and a body.\<close>

datatype fetch_event = FetchRejected string | Response bool nat "uint8 list"

definition loadLabels :: "fetch_event \<Rightarrow> error + uint8 list" where
  "loadLabels ev =
     (case ev of
        FetchRejected msg \<Rightarrow> Inl (FailedToLoadLabels (NetworkError msg))
      | Response ok status body \<Rightarrow>
          if \<not> ok then Inl (FailedToLoadLabels (HttpError status)) else Inr body)"

subsection \<open>Validation and loading\<close>

definition validateData :: "MnistData \<Rightarrow> error + unit" where
  "validateData s =
     (case datasetImages s of
        None \<Rightarrow> Inl ImagesEmptyOrInvalid
      | Some images \<Rightarrow>
          if length images = 0 then Inl ImagesEmptyOrInvalid
          else (case datasetLabels s of
                  None \<Rightarrow> Inl LabelsEmptyOrInvalid
                | Some lbls \<Rightarrow>
                    if length lbls = 0 then Inl LabelsEmptyOrInvalid
                    else (let expectedImageSize = NUM_DATASET_ELEMENTS * IMAGE_SIZE
                          in if length images \<noteq> expectedImageSize
                             then Inl (InvalidImageDataSize expectedImageSize (length images))
                             else (let expectedLabelSize = NUM_DATASET_ELEMENTS * NUM_CLASSES
                                   in if length lbls \<noteq> expectedLabelSize
                                      then Inl (InvalidLabelDataSize expectedLabelSize (length lbls))
                                      else Inr ()))))"

text \<open>
  What \<open>load\<close> takes from outside: what each attempt of the two loads does, which of the
  two wrappers rejects first when both reject (\<open>Promise.all\<close> rejects with the first
  rejection), and \<open>tf.util.createShuffledIndices\<close>, a function of the tensor library.
\<close>

record load_env =
  imageLoads :: "nat \<Rightarrow> error + real list"
  labelLoads :: "nat \<Rightarrow> error + uint8 list"
  imagesRejectFirst :: bool
  createShuffledIndices :: "nat \<Rightarrow> nat list"

definition promise_all :: "error + 'a \<Rightarrow> error + 'b \<Rightarrow> bool \<Rightarrow> error + 'a \<times> 'b" where
  "promise_all a b firstRejectsFirst =
     (case a of
        Inl ea \<Rightarrow> (case b of Inl eb \<Rightarrow> Inl (if firstRejectsFirst then ea else eb)
                            | Inr _ \<Rightarrow> Inl ea)
      | Inr va \<Rightarrow> (case b of Inl eb \<Rightarrow> Inl eb | Inr vb \<Rightarrow> Inr (va, vb)))"

definition split_train_test :: "MnistData \<Rightarrow> error + MnistData" where
  \<comment> \<open>the four \<open>slice\<close> assignments of \<open>load\<close>; a \<open>slice\<close> on \<open>null\<close> throws\<close>
  "split_train_test s =
     (case datasetImages s of
        None \<Rightarrow> Inl TypeError
      | Some images \<Rightarrow>
          (case datasetLabels s of
             None \<Rightarrow> Inl TypeError
           | Some lbls \<Rightarrow>
               Inr (s\<lparr> trainImages := Some (slice images 0 (IMAGE_SIZE * NUM_TRAIN_ELEMENTS)),
                       testImages := Some (slice_from images (IMAGE_SIZE * NUM_TRAIN_ELEMENTS)),
                       trainLabels := Some (slice lbls 0 (NUM_CLASSES * NUM_TRAIN_ELEMENTS)),
                       testLabels := Some (slice_from lbls (NUM_CLASSES * NUM_TRAIN_ELEMENTS)) \<rparr>)))"

definition load :: "load_env \<Rightarrow> MnistData \<Rightarrow> (error + unit) \<times> MnistData" where
  "load env s =
     (case promise_all (outcome (loadImagesWithRetry (imageLoads env) MAX_RETRIES))
             (outcome (loadLabelsWithRetry (labelLoads env) MAX_RETRIES))
             (imagesRejectFirst env) of
        Inl e \<Rightarrow> (Inl (FailedToLoadDataset e), s)
      | Inr (imageData, labelData) \<Rightarrow>
          (let s1 = s\<lparr>datasetImages := imageData, datasetLabels := labelData\<rparr>
           in case validateData s1 of
                Inl e \<Rightarrow> (Inl (FailedToLoadDataset e), s1)
              | Inr _ \<Rightarrow>
                  (let s2 = s1\<lparr> trainIndices := Some (createShuffledIndices env NUM_TRAIN_ELEMENTS),
                                 testIndices := Some (createShuffledIndices env NUM_TEST_ELEMENTS) \<rparr>
                   in case split_train_test s2 of
                        Inl e \<Rightarrow> (Inl (FailedToLoadDataset e), s2)
                      | Inr s3 \<Rightarrow> (Inr (), s3))))"

definition is_validation_error :: "error \<Rightarrow> bool" where
  "is_validation_error e =
     (case e of
        ImagesEmptyOrInvalid \<Rightarrow> True
      | LabelsEmptyOrInvalid \<Rightarrow> True
      | InvalidImageDataSize _ _ \<Rightarrow> True
      | InvalidLabelDataSize _ _ \<Rightarrow> True
      | _ \<Rightarrow> False)"

text \<open>A sequence of batch calls on one object; what a call returns or throws is dropped.\<close>

datatype batch_call = NextTrainBatch nat | NextTestBatch nat

fun run_calls :: "batch_call list \<Rightarrow> MnistData \<Rightarrow> MnistData" where
  "run_calls [] s = s"
| "run_calls (NextTrainBatch batchSize # calls) s = run_calls calls (snd (nextTrainBatch batchSize s))"
| "run_calls (NextTestBatch batchSize # calls) s = run_calls calls (snd (nextTestBatch batchSize s))"

subsection \<open>Loaded partitions and the order of draws\<close>

definition draw :: "nat list \<Rightarrow> nat \<Rightarrow> nat \<Rightarrow> nat" where
  "draw perm c k = perm ! ((c + 1 + k) mod length perm)"

definition partition_loaded ::
  "nat list option \<Rightarrow> real list option \<Rightarrow> uint8 list option \<Rightarrow> jsnum \<Rightarrow> bool" where
  "partition_loaded perm images lbls cursor =
     (case (perm, images, lbls, cursor) of
        (Some p, Some im, Some lb, Num c) \<Rightarrow>
           c < length p \<and> (\<forall>idx \<in> set p. idx < length p) \<and>
           length im = length p * IMAGE_SIZE \<and> length lb = length p * NUM_CLASSES
      | _ \<Rightarrow> False)"

definition train_loaded :: "MnistData \<Rightarrow> bool" where
  "train_loaded s =
     partition_loaded (trainIndices s) (trainImages s) (trainLabels s) (shuffledTrainIndex s)"

definition test_loaded :: "MnistData \<Rightarrow> bool" where
  "test_loaded s =
     partition_loaded (testIndices s) (testImages s) (testLabels s) (shuffledTestIndex s)"

definition cursor_nat :: "jsnum \<Rightarrow> nat" where
  "cursor_nat c = (case c of Num n \<Rightarrow> n | NaN \<Rightarrow> 0)"

definition records_of :: "'a list \<Rightarrow> nat \<Rightarrow> nat list \<Rightarrow> 'a list" where
  \<comment> \<open>the flat buffer that holds, in order, the records \<open>idxs\<close> of a corpus whose records
      have \<open>sz\<close> elements: record \<open>idx\<close> is the elements \<open>[idx * sz, idx * sz + sz)\<close>\<close>
  "records_of corpus sz idxs = concat (map (\<lambda>idx. take sz (drop (idx * sz) corpus)) idxs)"

subsection \<open>A partition of six examples\<close>

text \<open>
  The object as \<open>load\<close> leaves it, scaled down to six examples per partition: example
  \<open>r\<close> is an image whose pixels all have the value \<open>r / 255\<close>, labelled with class
  \<open>r\<close>;
  both index arrays hold the permutation 3, 0, 5, 2, 4, 1 and both cursors are where the
  constructor put them.
\<close>

definition scenario_perm :: "nat list" where
  "scenario_perm = [3, 0, 5, 2, 4, 1]"

definition scenario_image :: "nat \<Rightarrow> real list" where
  "scenario_image r = replicate IMAGE_SIZE (real r / 255)"

definition scenario_label :: "nat \<Rightarrow> uint8 list" where
  "scenario_label r = map (\<lambda>j. if j = r then 1 else 0) [0..<NUM_CLASSES]"

definition scenario :: MnistData where
  "scenario = constructor
     \<lparr> trainIndices := Some scenario_perm, testIndices := Some scenario_perm,
       trainImages := Some (concat (map scenario_image [0..<6])),
       testImages := Some (concat (map scenario_image [0..<6])),
       trainLabels := Some (concat (map scenario_label [0..<6])),
       testLabels := Some (concat (map scenario_label [0..<6])) \<rparr>"

subsection \<open>What a batch is to hold\<close>

definition batch_copies ::
  "batch \<Rightarrow> nat \<Rightarrow> nat list \<Rightarrow> nat \<Rightarrow> real list \<Rightarrow> uint8 list \<Rightarrow> bool" where
  \<comment> \<open>the batch of \<open>batchSize\<close> rounds drawn from cursor \<open>c\<close>: round \<open>i\<close> has advanced
      the cursor \<open>i + 1\<close> times, reads the index array there, and its image and label
      records stand at position \<open>i\<close> of the output\<close>
  "batch_copies b batchSize perm c images lbls =
     (length (tvalues (batch_xs b)) = batchSize * IMAGE_SIZE \<and>
      length (tvalues (batch_labels b)) = batchSize * NUM_CLASSES \<and>
      (\<forall>i \<in> {0..<batchSize}.
         let cursor = (c + 1 + i) mod length perm; idx = perm ! cursor
         in (\<forall>k \<in> {0..<IMAGE_SIZE}.
               tvalues (batch_xs b) ! (i * IMAGE_SIZE + k) = images ! (idx * IMAGE_SIZE + k)) \<and>
            (\<forall>k \<in> {0..<NUM_CLASSES}.
               tvalues (batch_labels b) ! (i * NUM_CLASSES + k)
                 = lbls ! (idx * NUM_CLASSES + k))))"

definition batch_of_records :: "real list \<Rightarrow> uint8 list \<Rightarrow> nat list \<Rightarrow> batch" where
  \<comment> \<open>the batch that holds the records \<open>idxs\<close> of a partition, in that order\<close>
  "batch_of_records images lbls idxs =
     \<lparr> batch_xs = tensor2d (records_of images IMAGE_SIZE idxs) (length idxs, IMAGE_SIZE),
       batch_labels = tensor2d (records_of lbls NUM_CLASSES idxs) (length idxs, NUM_CLASSES) \<rparr>"

definition batch_shaped :: "batch \<Rightarrow> nat \<Rightarrow> bool" where
  \<comment> \<open>images shaped \<open>[batchSize, IMAGE_SIZE]\<close>, labels shaped \<open>[batchSize, NUM_CLASSES]\<close>,
      each over a buffer of that many elements\<close>
  "batch_shaped b batchSize =
     (tshape (batch_xs b) = (batchSize, IMAGE_SIZE) \<and>
      length (tvalues (batch_xs b)) = batchSize * IMAGE_SIZE \<and>
      tshape (batch_labels b) = (batchSize, NUM_CLASSES) \<and>
      length (tvalues (batch_labels b)) = batchSize * NUM_CLASSES)"

definition normalized :: "real list \<Rightarrow> bool" where
  "normalized vs = (\<forall>v \<in> set vs. 0 \<le> v \<and> v \<le> 1)"

definition zero_one :: "uint8 list \<Rightarrow> bool" where
  "zero_one vs = (\<forall>v \<in> set vs. v = 0 \<or> v = 1)"

definition same_but_train_cursor :: "MnistData \<Rightarrow> MnistData \<Rightarrow> bool" where
  "same_but_train_cursor s s' =
     (shuffledTestIndex s' = shuffledTestIndex s \<and>
      datasetImages s' = datasetImages s \<and> datasetLabels s' = datasetLabels s \<and>
      trainIndices s' = trainIndices s \<and> testIndices s' = testIndices s \<and>
      trainImages s' = trainImages s \<and> testImages s' = testImages s \<and>
      trainLabels s' = trainLabels s \<and> testLabels s' = testLabels s)"

definition same_but_test_cursor :: "MnistData \<Rightarrow> MnistData \<Rightarrow> bool" where
  "same_but_test_cursor s s' =
     (shuffledTrainIndex s' = shuffledTrainIndex s \<and>
      datasetImages s' = datasetImages s \<and> datasetLabels s' = datasetLabels s \<and>
      trainIndices s' = trainIndices s \<and> testIndices s' = testIndices s \<and>
      trainImages s' = trainImages s \<and> testImages s' = testImages s \<and>
      trainLabels s' = trainLabels s \<and> testLabels s' = testLabels s)"

subsection \<open>Cursors in bounds\<close>

definition cursors_in_bounds :: "MnistData \<Rightarrow> bool" where
  \<comment> \<open>both cursors are numbers below the length of their index array, and the index arrays
      have the sizes of the two partitions\<close>
  "cursors_in_bounds s =
     (case (shuffledTrainIndex s, trainIndices s, shuffledTestIndex s, testIndices s) of
        (Num a, Some trainPerm, Num b, Some testPerm) \<Rightarrow>
           a < length trainPerm \<and> length trainPerm = NUM_TRAIN_ELEMENTS \<and>
           b < length testPerm \<and> length testPerm = NUM_TEST_ELEMENTS
      | _ \<Rightarrow> False)"

subsection \<open>Two environments of a load\<close>

text \<open>
  In the first both loads succeed at once with corpora of the expected sizes and the index
  arrays come out reversed; in the second the label load answers with ten bytes only.
\<close>

definition full_env :: load_env where
  "full_env =
     \<lparr> imageLoads = (\<lambda>k. Inr (replicate (NUM_DATASET_ELEMENTS * IMAGE_SIZE) 0)),
       labelLoads = (\<lambda>k. Inr (replicate (NUM_DATASET_ELEMENTS * NUM_CLASSES) 0)),
       imagesRejectFirst = True,
       createShuffledIndices = (\<lambda>n. rev [0..<n]) \<rparr>"

definition short_labels_env :: load_env where
  "short_labels_env = full_env\<lparr> labelLoads := (\<lambda>k. Inr (replicate 10 0)) \<rparr>"

section \<open>Properties\<close>

subsection \<open>Typed-array helpers\<close>

lemma typed_set_fit:
  "offset + length src \<le> length target \<Longrightarrow>
   typed_set target src offset = Inr (take offset target @ src @ drop (offset + length src) target)"
  by (simp add: typed_set_def)

lemma slice_record_full:
  "k * sz + sz \<le> length ys \<Longrightarrow> slice_record ys (Some k) sz = take sz (drop (k * sz) ys)"
  by (simp add: slice_record_def slice_def Let_def min_def)

lemma length_slice_record_full:
  "k * sz + sz \<le> length ys \<Longrightarrow> length (slice_record ys (Some k) sz) = sz"
  by (simp add: slice_record_full)

lemma place_step:
  assumes "length r = sz" "(i + 1 + n) * sz \<le> length b"
  shows "take ((i + 1) * sz) (take (i * sz) b @ r @ drop (i * sz + sz) b) = take (i * sz) b @ r"
    and "drop ((i + 1 + n) * sz) (take (i * sz) b @ r @ drop (i * sz + sz) b) = drop ((i + 1 + n) * sz) b"
    and "length (take (i * sz) b @ r @ drop (i * sz + sz) b) = length b"
proof -
  have le: "i * sz + sz \<le> length b" using assms(2) by (simp add: algebra_simps)
  then have l1: "length (take (i * sz) b) = i * sz" by simp
  show "take ((i + 1) * sz) (take (i * sz) b @ r @ drop (i * sz + sz) b) = take (i * sz) b @ r"
    using l1 assms(1) by (simp add: algebra_simps)
  show "drop ((i + 1 + n) * sz) (take (i * sz) b @ r @ drop (i * sz + sz) b) = drop ((i + 1 + n) * sz) b"
    using l1 assms(1) le by (simp add: algebra_simps)
  show "length (take (i * sz) b @ r @ drop (i * sz + sz) b) = length b"
    using l1 assms(1) le by (simp add: algebra_simps)
qed

lemma nextBatch_loop_closed:
  assumes idx: "\<And>s. I s \<Longrightarrow> index s = (Inr (Some (g s)), st s) \<and> I (st s)"
    and img: "\<And>s. I s \<Longrightarrow> g s * IMAGE_SIZE + IMAGE_SIZE \<le> length images"
    and lbl: "\<And>s. I s \<Longrightarrow> g s * NUM_CLASSES + NUM_CLASSES \<le> length lbls"
  shows "I s \<Longrightarrow> (i + n) * IMAGE_SIZE \<le> length bi \<Longrightarrow> (i + n) * NUM_CLASSES \<le> length bl \<Longrightarrow>
     nextBatch_loop n i (Some images, Some lbls) index (bi, bl) s =
       (Inr (take (i * IMAGE_SIZE) bi
               @ concat (map (\<lambda>k. slice_record images (Some (g ((st ^^ k) s))) IMAGE_SIZE) [0..<n])
               @ drop ((i + n) * IMAGE_SIZE) bi,
             take (i * NUM_CLASSES) bl
               @ concat (map (\<lambda>k. slice_record lbls (Some (g ((st ^^ k) s))) NUM_CLASSES) [0..<n])
               @ drop ((i + n) * NUM_CLASSES) bl),
        (st ^^ n) s)"
proof (induction n arbitrary: i bi bl s)
  case 0
  then show ?case by simp
next
  case (Suc n)
  let ?r = "slice_record images (Some (g s)) IMAGE_SIZE"
  let ?q = "slice_record lbls (Some (g s)) NUM_CLASSES"
  let ?bi = "take (i * IMAGE_SIZE) bi @ ?r @ drop (i * IMAGE_SIZE + IMAGE_SIZE) bi"
  let ?bl = "take (i * NUM_CLASSES) bl @ ?q @ drop (i * NUM_CLASSES + NUM_CLASSES) bl"
  have ix: "index s = (Inr (Some (g s)), st s)" and I': "I (st s)"
    using idx[OF Suc.prems(1)] by simp_all
  have lr: "length ?r = IMAGE_SIZE" using img[OF Suc.prems(1)] by (rule length_slice_record_full)
  have lq: "length ?q = NUM_CLASSES" using lbl[OF Suc.prems(1)] by (rule length_slice_record_full)
  have bi: "(i + 1 + n) * IMAGE_SIZE \<le> length bi" using Suc.prems(2) by simp
  have bl: "(i + 1 + n) * NUM_CLASSES \<le> length bl" using Suc.prems(3) by simp
  have fit1: "i * IMAGE_SIZE + length ?r \<le> length bi" using lr bi by (simp add: algebra_simps)
  have fit2: "i * NUM_CLASSES + length ?q \<le> length bl" using lq bl by (simp add: algebra_simps)
  have s1: "typed_set bi ?r (i * IMAGE_SIZE) = Inr ?bi"
    using typed_set_fit[OF fit1] lr by simp
  have s2: "typed_set bl ?q (i * NUM_CLASSES) = Inr ?bl"
    using typed_set_fit[OF fit2] lq by simp
  have IH: "nextBatch_loop n (Suc i) (Some images, Some lbls) index (?bi, ?bl) (st s) =
       (Inr (take (Suc i * IMAGE_SIZE) ?bi
               @ concat (map (\<lambda>k. slice_record images (Some (g ((st ^^ k) (st s)))) IMAGE_SIZE) [0..<n])
               @ drop ((Suc i + n) * IMAGE_SIZE) ?bi,
             take (Suc i * NUM_CLASSES) ?bl
               @ concat (map (\<lambda>k. slice_record lbls (Some (g ((st ^^ k) (st s)))) NUM_CLASSES) [0..<n])
               @ drop ((Suc i + n) * NUM_CLASSES) ?bl),
        (st ^^ n) (st s))"
    apply (rule Suc.IH[OF I'])
    using place_step(3)[OF lr bi] place_step(3)[OF lq bl] bi bl by simp_all
  have m: "\<And>f. map f [0..<Suc n] = f 0 # map (\<lambda>k. f (Suc k)) [0..<n]"
    by (simp add: map_upt_Suc del: upt_Suc)
  show ?case
    apply (simp only: nextBatch_loop.simps ix prod.case sum.case fst_conv snd_conv option.case s1 s2 IH)
    using place_step(1,2)[OF lr bi] place_step(1,2)[OF lq bl]
    by (simp add: m funpow_swap1 del: upt_Suc)
qed

subsection \<open>The closed form of a batch\<close>

lemma concat_nth_blocks:
  "\<forall>ys \<in> set xss. length ys = sz \<Longrightarrow> i < length xss \<Longrightarrow> k < sz \<Longrightarrow>
   concat xss ! (i * sz + k) = xss ! i ! k"
proof (induction xss arbitrary: i)
  case Nil
  then show ?case by simp
next
  case (Cons a xss)
  show ?case
  proof (cases i)
    case 0
    then show ?thesis using Cons.prems by (simp add: nth_append)
  next
    case (Suc j)
    have "concat (a # xss) ! (i * sz + k) = concat xss ! (j * sz + k)"
      using Cons.prems Suc by (simp add: nth_append)
    then show ?thesis using Cons.IH[of j] Cons.prems Suc by simp
  qed
qed

lemma length_concat_blocks:
  "\<forall>ys \<in> set xss. length ys = sz \<Longrightarrow> length (concat xss) = length xss * sz"
  by (induction xss) simp_all

lemma trainIndex_step:
  assumes "trainIndices s = Some perm" "shuffledTrainIndex s = Num c" "perm \<noteq> []"
  shows "trainIndex s =
    (Inr (Some (perm ! ((c + 1) mod length perm))),
     s\<lparr>shuffledTrainIndex := Num ((c + 1) mod length perm)\<rparr>)"
  using assms by (simp add: trainIndex_def js_succ_mod_def js_index_def Let_def)

lemma testIndex_step:
  assumes "testIndices s = Some perm" "shuffledTestIndex s = Num c" "perm \<noteq> []"
  shows "testIndex s =
    (Inr (Some (perm ! ((c + 1) mod length perm))),
     s\<lparr>shuffledTestIndex := Num ((c + 1) mod length perm)\<rparr>)"
  using assms by (simp add: testIndex_def js_succ_mod_def js_index_def Let_def)

lemma train_funpow:
  "c < p \<Longrightarrow> shuffledTrainIndex s = Num c \<Longrightarrow>
   ((\<lambda>t::MnistData. t\<lparr>shuffledTrainIndex := Num ((cursor_nat (shuffledTrainIndex t) + 1) mod p)\<rparr>) ^^ k) s
     = s\<lparr>shuffledTrainIndex := Num ((c + k) mod p)\<rparr>"
  by (induction k) (simp_all add: cursor_nat_def mod_Suc_eq)

lemma test_funpow:
  "c < p \<Longrightarrow> shuffledTestIndex s = Num c \<Longrightarrow>
   ((\<lambda>t::MnistData. t\<lparr>shuffledTestIndex := Num ((cursor_nat (shuffledTestIndex t) + 1) mod p)\<rparr>) ^^ k) s
     = s\<lparr>shuffledTestIndex := Num ((c + k) mod p)\<rparr>"
  by (induction k) (simp_all add: cursor_nat_def mod_Suc_eq)

lemma nextTrainBatch_closed:
  assumes "trainIndices s = Some perm" "trainImages s = Some images" "trainLabels s = Some lbls"
    "shuffledTrainIndex s = Num c" "c < length perm" "\<forall>idx \<in> set perm. idx < length perm"
    "length images = length perm * IMAGE_SIZE" "length lbls = length perm * NUM_CLASSES"
  shows "nextTrainBatch n s =
    (Inr \<lparr> batch_xs = tensor2d
              (concat (map (\<lambda>k. take IMAGE_SIZE (drop (draw perm c k * IMAGE_SIZE) images)) [0..<n]))
              (n, IMAGE_SIZE),
           batch_labels = tensor2d
              (concat (map (\<lambda>k. take NUM_CLASSES (drop (draw perm c k * NUM_CLASSES) lbls)) [0..<n]))
              (n, NUM_CLASSES) \<rparr>,
     s\<lparr>shuffledTrainIndex := Num ((c + n) mod length perm)\<rparr>)"
proof -
  let ?p = "length perm"
  define I where "I = (\<lambda>t::MnistData. \<exists>k < ?p. t = s\<lparr>shuffledTrainIndex := Num k\<rparr>)"
  define g where "g = (\<lambda>t::MnistData. perm ! ((cursor_nat (shuffledTrainIndex t) + 1) mod ?p))"
  define st where
    "st = (\<lambda>t::MnistData. t\<lparr>shuffledTrainIndex := Num ((cursor_nat (shuffledTrainIndex t) + 1) mod ?p)\<rparr>)"
  have ne: "perm \<noteq> []" and pos: "0 < ?p" using assms(5) by auto
  have Is: "I s" unfolding I_def using assms(4,5) by (intro exI[of _ c]) simp
  have step: "trainIndex t = (Inr (Some (g t)), st t) \<and> I (st t)" if "I t" for t
  proof -
    from that obtain k where k: "k < ?p" "t = s\<lparr>shuffledTrainIndex := Num k\<rparr>"
      unfolding I_def by blast
    have "trainIndex t = (Inr (Some (perm ! ((k + 1) mod ?p))),
            t\<lparr>shuffledTrainIndex := Num ((k + 1) mod ?p)\<rparr>)"
      by (rule trainIndex_step) (simp_all add: k assms(1) ne)
    moreover have "I (st t)"
      unfolding I_def st_def using pos by (intro exI[of _ "(k + 1) mod ?p"]) (simp add: k cursor_nat_def)
    ultimately show ?thesis by (simp add: g_def st_def k cursor_nat_def)
  qed
  have glt: "g t < ?p" if "I t" for t
    using assms(6) pos unfolding g_def by simp
  have img: "g t * IMAGE_SIZE + IMAGE_SIZE \<le> length images" if "I t" for t
  proof -
    have "(g t + 1) * IMAGE_SIZE \<le> ?p * IMAGE_SIZE"
      using glt[OF that] by (intro mult_le_mono1) simp
    then show ?thesis by (simp add: assms(7))
  qed
  have lbl: "g t * NUM_CLASSES + NUM_CLASSES \<le> length lbls" if "I t" for t
  proof -
    have "(g t + 1) * NUM_CLASSES \<le> ?p * NUM_CLASSES"
      using glt[OF that] by (intro mult_le_mono1) simp
    then show ?thesis by (simp add: assms(8))
  qed
  have gk: "g ((st ^^ k) s) = draw perm c k" for k
  proof -
    have "(st ^^ k) s = s\<lparr>shuffledTrainIndex := Num ((c + k) mod ?p)\<rparr>"
      unfolding st_def using assms(5,4) by (rule train_funpow)
    then show ?thesis by (simp add: g_def draw_def cursor_nat_def mod_Suc_eq)
  qed
  have Ik: "I ((st ^^ k) s)" for k
    by (induction k) (simp_all add: Is step)
  have r1: "slice_record images (Some (g ((st ^^ k) s))) IMAGE_SIZE
              = take IMAGE_SIZE (drop (draw perm c k * IMAGE_SIZE) images)" for k
    using slice_record_full[OF img[OF Ik[of k]]] by (simp add: gk)
  have r2: "slice_record lbls (Some (g ((st ^^ k) s))) NUM_CLASSES
              = take NUM_CLASSES (drop (draw perm c k * NUM_CLASSES) lbls)" for k
    using slice_record_full[OF lbl[OF Ik[of k]]] by (simp add: gk)
  have fin: "(st ^^ n) s = s\<lparr>shuffledTrainIndex := Num ((c + n) mod ?p)\<rparr>"
    unfolding st_def using assms(5,4) by (rule train_funpow)
  have loop: "nextBatch_loop n 0 (Some images, Some lbls) trainIndex
          (replicate (n * IMAGE_SIZE) 0, replicate (n * NUM_CLASSES) 0) s =
       (Inr (concat (map (\<lambda>k. take IMAGE_SIZE (drop (draw perm c k * IMAGE_SIZE) images)) [0..<n]),
             concat (map (\<lambda>k. take NUM_CLASSES (drop (draw perm c k * NUM_CLASSES) lbls)) [0..<n])),
        s\<lparr>shuffledTrainIndex := Num ((c + n) mod ?p)\<rparr>)"
    using nextBatch_loop_closed[of I trainIndex g st images lbls s 0 n
            "replicate (n * IMAGE_SIZE) 0" "replicate (n * NUM_CLASSES) 0", OF step img lbl Is]
    by (simp add: r1 r2 fin)
  show ?thesis
    by (simp add: nextTrainBatch_def nextBatch_def assms(2,3) loop)
qed

lemma nextTestBatch_closed:
  assumes "testIndices s = Some perm" "testImages s = Some images" "testLabels s = Some lbls"
    "shuffledTestIndex s = Num c" "c < length perm" "\<forall>idx \<in> set perm. idx < length perm"
    "length images = length perm * IMAGE_SIZE" "length lbls = length perm * NUM_CLASSES"
  shows "nextTestBatch n s =
    (Inr \<lparr> batch_xs = tensor2d
              (concat (map (\<lambda>k. take IMAGE_SIZE (drop (draw perm c k * IMAGE_SIZE) images)) [0..<n]))
              (n, IMAGE_SIZE),
           batch_labels = tensor2d
              (concat (map (\<lambda>k. take NUM_CLASSES (drop (draw perm c k * NUM_CLASSES) lbls)) [0..<n]))
              (n, NUM_CLASSES) \<rparr>,
     s\<lparr>shuffledTestIndex := Num ((c + n) mod length perm)\<rparr>)"
proof -
  let ?p = "length perm"
  define I where "I = (\<lambda>t::MnistData. \<exists>k < ?p. t = s\<lparr>shuffledTestIndex := Num k\<rparr>)"
  define g where "g = (\<lambda>t::MnistData. perm ! ((cursor_nat (shuffledTestIndex t) + 1) mod ?p))"
  define st where
    "st = (\<lambda>t::MnistData. t\<lparr>shuffledTestIndex := Num ((cursor_nat (shuffledTestIndex t) + 1) mod ?p)\<rparr>)"
  have ne: "perm \<noteq> []" and pos: "0 < ?p" using assms(5) by auto
  have Is: "I s" unfolding I_def using assms(4,5) by (intro exI[of _ c]) simp
  have step: "testIndex t = (Inr (Some (g t)), st t) \<and> I (st t)" if "I t" for t
  proof -
    from that obtain k where k: "k < ?p" "t = s\<lparr>shuffledTestIndex := Num k\<rparr>"
      unfolding I_def by blast
    have "testIndex t = (Inr (Some (perm ! ((k + 1) mod ?p))),
            t\<lparr>shuffledTestIndex := Num ((k + 1) mod ?p)\<rparr>)"
      by (rule testIndex_step) (simp_all add: k assms(1) ne)
    moreover have "I (st t)"
      unfolding I_def st_def using pos by (intro exI[of _ "(k + 1) mod ?p"]) (simp add: k cursor_nat_def)
    ultimately show ?thesis by (simp add: g_def st_def k cursor_nat_def)
  qed
  have glt: "g t < ?p" if "I t" for t
    using assms(6) pos unfolding g_def by simp
  have img: "g t * IMAGE_SIZE + IMAGE_SIZE \<le> length images" if "I t" for t
  proof -
    have "(g t + 1) * IMAGE_SIZE \<le> ?p * IMAGE_SIZE"
      using glt[OF that] by (intro mult_le_mono1) simp
    then show ?thesis by (simp add: assms(7))
  qed
  have lbl: "g t * NUM_CLASSES + NUM_CLASSES \<le> length lbls" if "I t" for t
  proof -
    have "(g t + 1) * NUM_CLASSES \<le> ?p * NUM_CLASSES"
      using glt[OF that] by (intro mult_le_mono1) simp
    then show ?thesis by (simp add: assms(8))
  qed
  have gk: "g ((st ^^ k) s) = draw perm c k" for k
  proof -
    have "(st ^^ k) s = s\<lparr>shuffledTestIndex := Num ((c + k) mod ?p)\<rparr>"
      unfolding st_def using assms(5,4) by (rule test_funpow)
    then show ?thesis by (simp add: g_def draw_def cursor_nat_def mod_Suc_eq)
  qed
  have Ik: "I ((st ^^ k) s)" for k
    by (induction k) (simp_all add: Is step)
  have r1: "slice_record images (Some (g ((st ^^ k) s))) IMAGE_SIZE
              = take IMAGE_SIZE (drop (draw perm c k * IMAGE_SIZE) images)" for k
    using slice_record_full[OF img[OF Ik[of k]]] by (simp add: gk)
  have r2: "slice_record lbls (Some (g ((st ^^ k) s))) NUM_CLASSES
              = take NUM_CLASSES (drop (draw perm c k * NUM_CLASSES) lbls)" for k
    using slice_record_full[OF lbl[OF Ik[of k]]] by (simp add: gk)
  have fin: "(st ^^ n) s = s\<lparr>shuffledTestIndex := Num ((c + n) mod ?p)\<rparr>"
    unfolding st_def using assms(5,4) by (rule test_funpow)
  have loop: "nextBatch_loop n 0 (Some images, Some lbls) testIndex
          (replicate (n * IMAGE_SIZE) 0, replicate (n * NUM_CLASSES) 0) s =
       (Inr (concat (map (\<lambda>k. take IMAGE_SIZE (drop (draw perm c k * IMAGE_SIZE) images)) [0..<n]),
             concat (map (\<lambda>k. take NUM_CLASSES (drop (draw perm c k * NUM_CLASSES) lbls)) [0..<n])),
        s\<lparr>shuffledTestIndex := Num ((c + n) mod ?p)\<rparr>)"
    using nextBatch_loop_closed[of I testIndex g st images lbls s 0 n
            "replicate (n * IMAGE_SIZE) 0" "replicate (n * NUM_CLASSES) 0", OF step img lbl Is]
    by (simp add: r1 r2 fin)
  show ?thesis
    by (simp add: nextTestBatch_def nextBatch_def assms(2,3) loop)
qed

subsection \<open>Records of a corpus and the six-example partition\<close>

lemma take_drop_blocks:
  "\<forall>ys \<in> set xss. length ys = sz \<Longrightarrow> i < length xss \<Longrightarrow>
   take sz (drop (i * sz) (concat xss)) = xss ! i"
proof (induction xss arbitrary: i)
  case Nil
  then show ?case by simp
next
  case (Cons a xss)
  show ?case
  proof (cases i)
    case 0
    then show ?thesis using Cons.prems by simp
  next
    case (Suc j)
    then show ?thesis using Cons.IH[of j] Cons.prems by simp
  qed
qed

lemma records_of_blocks:
  assumes "\<forall>ys \<in> set xss. length ys = sz" "\<forall>idx \<in> set idxs. idx < length xss"
  shows "records_of (concat xss) sz idxs = concat (map (\<lambda>idx. xss ! idx) idxs)"
  unfolding records_of_def using assms
  by (intro arg_cong[where f = concat] map_cong refl) (simp add: take_drop_blocks)

lemma length_records_of:
  assumes "\<forall>idx \<in> set idxs. idx * sz + sz \<le> length corpus"
  shows "length (records_of corpus sz idxs) = length idxs * sz"
  using assms by (induction idxs) (auto simp: records_of_def min_def)

lemma records_of_nth:
  assumes "\<forall>idx \<in> set idxs. idx * sz + sz \<le> length corpus" "i < length idxs" "k < sz"
  shows "records_of corpus sz idxs ! (i * sz + k) = corpus ! (idxs ! i * sz + k)"
proof -
  let ?xss = "map (\<lambda>idx. take sz (drop (idx * sz) corpus)) idxs"
  have len: "\<forall>ys \<in> set ?xss. length ys = sz" using assms(1) by auto
  have "records_of corpus sz idxs ! (i * sz + k) = ?xss ! i ! k"
    unfolding records_of_def using len assms(2,3) by (intro concat_nth_blocks) simp_all
  also have "\<dots> = corpus ! (idxs ! i * sz + k)"
  proof -
    have "idxs ! i * sz + sz \<le> length corpus"
      using assms(1,2) nth_mem[of i idxs] by blast
    then show ?thesis using assms(2,3) by simp
  qed
  finally show ?thesis .
qed

lemma set_records_of: "set (records_of corpus sz idxs) \<subseteq> set corpus"
  unfolding records_of_def
  by (auto dest!: in_set_takeD in_set_dropD)

lemma draw_less:
  "c < length perm \<Longrightarrow> \<forall>idx \<in> set perm. idx < length perm \<Longrightarrow> draw perm c k < length perm"
proof -
  assume a: "c < length perm" "\<forall>idx \<in> set perm. idx < length perm"
  then have "0 < length perm" by (cases perm) auto
  then have "(c + 1 + k) mod length perm < length perm" by (rule mod_less_divisor)
  then have "perm ! ((c + 1 + k) mod length perm) \<in> set perm" by (rule nth_mem)
  then show ?thesis using a(2) by (simp add: draw_def)
qed

lemma nextTrainBatch_records:
  assumes "train_loaded s" "trainIndices s = Some perm" "trainImages s = Some images"
    "trainLabels s = Some lbls" "shuffledTrainIndex s = Num c"
  shows "nextTrainBatch n s =
    (Inr \<lparr> batch_xs = tensor2d (records_of images IMAGE_SIZE (map (draw perm c) [0..<n]))
                         (n, IMAGE_SIZE),
           batch_labels = tensor2d (records_of lbls NUM_CLASSES (map (draw perm c) [0..<n]))
                         (n, NUM_CLASSES) \<rparr>,
     s\<lparr>shuffledTrainIndex := Num ((c + n) mod length perm)\<rparr>)"
proof -
  have wf: "c < length perm" "\<forall>idx \<in> set perm. idx < length perm"
    "length images = length perm * IMAGE_SIZE" "length lbls = length perm * NUM_CLASSES"
    using assms unfolding train_loaded_def partition_loaded_def by simp_all
  show ?thesis
    using nextTrainBatch_closed[OF assms(2,3,4,5) wf, of n]
    by (simp add: records_of_def comp_def)
qed

lemma nextTestBatch_records:
  assumes "test_loaded s" "testIndices s = Some perm" "testImages s = Some images"
    "testLabels s = Some lbls" "shuffledTestIndex s = Num c"
  shows "nextTestBatch n s =
    (Inr \<lparr> batch_xs = tensor2d (records_of images IMAGE_SIZE (map (draw perm c) [0..<n]))
                         (n, IMAGE_SIZE),
           batch_labels = tensor2d (records_of lbls NUM_CLASSES (map (draw perm c) [0..<n]))
                         (n, NUM_CLASSES) \<rparr>,
     s\<lparr>shuffledTestIndex := Num ((c + n) mod length perm)\<rparr>)"
proof -
  have wf: "c < length perm" "\<forall>idx \<in> set perm. idx < length perm"
    "length images = length perm * IMAGE_SIZE" "length lbls = length perm * NUM_CLASSES"
    using assms unfolding test_loaded_def partition_loaded_def by simp_all
  show ?thesis
    using nextTestBatch_closed[OF assms(2,3,4,5) wf, of n]
    by (simp add: records_of_def comp_def)
qed

lemma record_in_corpus:
  "idx < p \<Longrightarrow> length corpus = p * sz \<Longrightarrow> idx * sz + sz \<le> length corpus"
proof -
  assume a: "idx < p" "length corpus = p * sz"
  have "(idx + 1) * sz \<le> p * sz" using a(1) by (intro mult_le_mono1) simp
  then show ?thesis using a(2) by simp
qed

lemma scenario_fields:
  "trainIndices scenario = Some scenario_perm" "testIndices scenario = Some scenario_perm"
  "trainImages scenario = Some (concat (map scenario_image [0..<6]))"
  "testImages scenario = Some (concat (map scenario_image [0..<6]))"
  "trainLabels scenario = Some (concat (map scenario_label [0..<6]))"
  "testLabels scenario = Some (concat (map scenario_label [0..<6]))"
  "shuffledTrainIndex scenario = Num 0" "shuffledTestIndex scenario = Num 0"
  by (simp_all add: scenario_def constructor_def)

lemma scenario_lengths:
  "length (concat (map scenario_image [0..<6])) = 6 * IMAGE_SIZE"
  "length (concat (map scenario_label [0..<6])) = 6 * NUM_CLASSES"
  "length scenario_perm = 6"
  by (simp_all add: length_concat_blocks[where sz = IMAGE_SIZE]
        length_concat_blocks[where sz = NUM_CLASSES] scenario_image_def scenario_label_def
        scenario_perm_def)

lemma scenario_loaded: "train_loaded scenario" "test_loaded scenario"
  unfolding train_loaded_def test_loaded_def partition_loaded_def
  by (simp_all add: scenario_fields scenario_lengths) (simp_all add: scenario_perm_def)

lemma scenario_records:
  assumes "\<forall>idx \<in> set idxs. idx < 6"
  shows "records_of (concat (map scenario_image [0..<6])) IMAGE_SIZE idxs
           = concat (map scenario_image idxs)"
    and "records_of (concat (map scenario_label [0..<6])) NUM_CLASSES idxs
           = concat (map scenario_label idxs)"
proof -
  have "records_of (concat (map scenario_image [0..<6])) IMAGE_SIZE idxs
          = concat (map (\<lambda>idx. map scenario_image [0..<6] ! idx) idxs)"
    using assms by (intro records_of_blocks) (auto simp: scenario_image_def)
  also have "\<dots> = concat (map scenario_image idxs)"
    using assms by (intro arg_cong[where f = concat] map_cong refl) (simp del: upt_Suc)
  finally show "records_of (concat (map scenario_image [0..<6])) IMAGE_SIZE idxs
           = concat (map scenario_image idxs)" .
  have "records_of (concat (map scenario_label [0..<6])) NUM_CLASSES idxs
          = concat (map (\<lambda>idx. map scenario_label [0..<6] ! idx) idxs)"
    using assms by (intro records_of_blocks) (auto simp: scenario_label_def)
  also have "\<dots> = concat (map scenario_label idxs)"
    using assms by (intro arg_cong[where f = concat] map_cong refl) (simp del: upt_Suc)
  finally show "records_of (concat (map scenario_label [0..<6])) NUM_CLASSES idxs
           = concat (map scenario_label idxs)" .
qed

lemma scenario_draws:
  "map (draw scenario_perm 0) [0..<4] = [0, 5, 2, 4]"
  "map (draw scenario_perm 0) [0..<6] = [0, 5, 2, 4, 1, 3]"
  "map (draw scenario_perm 0) [0..<7] = [0, 5, 2, 4, 1, 3, 0]"
  by (simp_all add: draw_def scenario_perm_def upt_rec)

subsection \<open>Claim C1: what a batch copies\<close>

lemma batch_copies_records:
  assumes wf: "partition_loaded (Some perm) (Some images) (Some lbls) (Num c)"
  shows "batch_copies
           \<lparr> batch_xs = tensor2d (records_of images IMAGE_SIZE (map (draw perm c) [0..<n]))
                          (n, IMAGE_SIZE),
             batch_labels = tensor2d (records_of lbls NUM_CLASSES (map (draw perm c) [0..<n]))
                          (n, NUM_CLASSES) \<rparr>
           n perm c images lbls"
proof -
  have p: "c < length perm" "\<forall>idx \<in> set perm. idx < length perm"
    "length images = length perm * IMAGE_SIZE" "length lbls = length perm * NUM_CLASSES"
    using wf unfolding partition_loaded_def by simp_all
  have in1: "\<forall>idx \<in> set (map (draw perm c) [0..<n]).
                idx * IMAGE_SIZE + IMAGE_SIZE \<le> length images"
    using draw_less[OF p(1,2)] record_in_corpus[OF _ p(3)] by simp
  have in2: "\<forall>idx \<in> set (map (draw perm c) [0..<n]).
                idx * NUM_CLASSES + NUM_CLASSES \<le> length lbls"
    using draw_less[OF p(1,2)] record_in_corpus[OF _ p(4)] by simp
  have n1: "records_of images IMAGE_SIZE (map (draw perm c) [0..<n]) ! (i * IMAGE_SIZE + k)
              = images ! (perm ! ((c + 1 + i) mod length perm) * IMAGE_SIZE + k)"
    if "i < n" "k < IMAGE_SIZE" for i k
    using records_of_nth[OF in1, of i k] that by (simp add: draw_def)
  have n2: "records_of lbls NUM_CLASSES (map (draw perm c) [0..<n]) ! (i * NUM_CLASSES + k)
              = lbls ! (perm ! ((c + 1 + i) mod length perm) * NUM_CLASSES + k)"
    if "i < n" "k < NUM_CLASSES" for i k
    using records_of_nth[OF in2, of i k] that by (simp add: draw_def)
  show ?thesis
    unfolding batch_copies_def
    using length_records_of[OF in1] length_records_of[OF in2] n1 n2
    by (simp add: Let_def tensor2d_def)
qed

text \<open>
  Claim C1.  On a loaded partition with index array \<open>perm\<close> of length \<open>P\<close> and cursor
  \<open>c\<close>, the closure \<open>index\<close> first advances the cursor to \<open>(c + 1) mod P\<close> and then
  returns \<open>perm[cursor]\<close>; a batch of \<open>batchSize\<close> elements succeeds, leaves the cursor
  at \<open>(c + batchSize) mod P\<close>, and for every \<open>i\<close> below \<open>batchSize\<close>, with \<open>idx\<close>
  the index drawn in round \<open>i\<close>, holds the image elements \<open>[idx * 784, idx * 784 + 784)\<close>
  at \<open>[i * 784, i * 784 + 784)\<close> and the label elements \<open>[idx * 10, idx * 10 + 10)\<close> at
  \<open>[i * 10, i * 10 + 10)\<close>, element by element.  The same holds for the test partition.
\<close>

theorem nextBatch_copies_drawn_records:
  "(train_loaded s \<and> trainIndices s = Some perm \<and> trainImages s = Some images \<and>
    trainLabels s = Some lbls \<and> shuffledTrainIndex s = Num c \<longrightarrow>
      trainIndex s = (Inr (Some (perm ! ((c + 1) mod length perm))),
                      s\<lparr>shuffledTrainIndex := Num ((c + 1) mod length perm)\<rparr>) \<and>
      (\<exists>b. nextTrainBatch batchSize s =
              (Inr b, s\<lparr>shuffledTrainIndex := Num ((c + batchSize) mod length perm)\<rparr>) \<and>
           batch_copies b batchSize perm c images lbls)) \<and>
   (test_loaded s \<and> testIndices s = Some perm \<and> testImages s = Some images \<and>
    testLabels s = Some lbls \<and> shuffledTestIndex s = Num c \<longrightarrow>
      testIndex s = (Inr (Some (perm ! ((c + 1) mod length perm))),
                     s\<lparr>shuffledTestIndex := Num ((c + 1) mod length perm)\<rparr>) \<and>
      (\<exists>b. nextTestBatch batchSize s =
              (Inr b, s\<lparr>shuffledTestIndex := Num ((c + batchSize) mod length perm)\<rparr>) \<and>
           batch_copies b batchSize perm c images lbls))"
proof (intro conjI impI)
  assume a: "train_loaded s \<and> trainIndices s = Some perm \<and> trainImages s = Some images \<and>
    trainLabels s = Some lbls \<and> shuffledTrainIndex s = Num c"
  then have wf: "partition_loaded (Some perm) (Some images) (Some lbls) (Num c)"
    by (auto simp: train_loaded_def)
  then have ne: "perm \<noteq> []" by (auto simp: partition_loaded_def)
  show "trainIndex s = (Inr (Some (perm ! ((c + 1) mod length perm))),
                      s\<lparr>shuffledTrainIndex := Num ((c + 1) mod length perm)\<rparr>)"
    using a ne by (intro trainIndex_step) simp_all
  show "\<exists>b. nextTrainBatch batchSize s =
              (Inr b, s\<lparr>shuffledTrainIndex := Num ((c + batchSize) mod length perm)\<rparr>) \<and>
           batch_copies b batchSize perm c images lbls"
    using nextTrainBatch_records[of s perm images lbls c batchSize] a
      batch_copies_records[OF wf, of batchSize]
    by simp
next
  assume a: "test_loaded s \<and> testIndices s = Some perm \<and> testImages s = Some images \<and>
    testLabels s = Some lbls \<and> shuffledTestIndex s = Num c"
  then have wf: "partition_loaded (Some perm) (Some images) (Some lbls) (Num c)"
    by (auto simp: test_loaded_def)
  then have ne: "perm \<noteq> []" by (auto simp: partition_loaded_def)
  show "testIndex s = (Inr (Some (perm ! ((c + 1) mod length perm))),
                      s\<lparr>shuffledTestIndex := Num ((c + 1) mod length perm)\<rparr>)"
    using a ne by (intro testIndex_step) simp_all
  show "\<exists>b. nextTestBatch batchSize s =
              (Inr b, s\<lparr>shuffledTestIndex := Num ((c + batchSize) mod length perm)\<rparr>) \<and>
           batch_copies b batchSize perm c images lbls"
    using nextTestBatch_records[of s perm images lbls c batchSize] a
      batch_copies_records[OF wf, of batchSize]
    by simp
qed

theorem nextBatch_copies_drawn_records_witness:
  "train_loaded scenario \<and> test_loaded scenario \<and>
   trainIndex scenario = (Inr (Some 0), scenario\<lparr>shuffledTrainIndex := Num 1\<rparr>) \<and>
   (\<exists>b. nextTrainBatch 4 scenario = (Inr b, scenario\<lparr>shuffledTrainIndex := Num 4\<rparr>) \<and>
        batch_copies b 4 scenario_perm 0
          (concat (map scenario_image [0..<6])) (concat (map scenario_label [0..<6]))) \<and>
   testIndex scenario = (Inr (Some 0), scenario\<lparr>shuffledTestIndex := Num 1\<rparr>) \<and>
   (\<exists>b. nextTestBatch 8 scenario = (Inr b, scenario\<lparr>shuffledTestIndex := Num 2\<rparr>) \<and>
        batch_copies b 8 scenario_perm 0
          (concat (map scenario_image [0..<6])) (concat (map scenario_label [0..<6])))"
  using nextBatch_copies_drawn_records[of scenario scenario_perm
          "concat (map scenario_image [0..<6])" "concat (map scenario_label [0..<6])" 0 4]
        nextBatch_copies_drawn_records[of scenario scenario_perm
          "concat (map scenario_image [0..<6])" "concat (map scenario_label [0..<6])" 0 8]
        scenario_loaded scenario_fields
  by (simp add: scenario_lengths) (simp add: scenario_perm_def)

subsection \<open>Claim C3: the batch of four on the six-example partition\<close>

lemma nextTrainBatch_batch_of_records:
  assumes "train_loaded s" "trainIndices s = Some perm" "trainImages s = Some images"
    "trainLabels s = Some lbls" "shuffledTrainIndex s = Num c"
  shows "nextTrainBatch n s =
    (Inr (batch_of_records images lbls (map (draw perm c) [0..<n])),
     s\<lparr>shuffledTrainIndex := Num ((c + n) mod length perm)\<rparr>)"
  using nextTrainBatch_records[OF assms, of n] by (simp add: batch_of_records_def)

lemma nextTestBatch_batch_of_records:
  assumes "test_loaded s" "testIndices s = Some perm" "testImages s = Some images"
    "testLabels s = Some lbls" "shuffledTestIndex s = Num c"
  shows "nextTestBatch n s =
    (Inr (batch_of_records images lbls (map (draw perm c) [0..<n])),
     s\<lparr>shuffledTestIndex := Num ((c + n) mod length perm)\<rparr>)"
  using nextTestBatch_records[OF assms, of n] by (simp add: batch_of_records_def)

lemma scenario_batch:
  assumes "\<forall>idx \<in> set idxs. idx < 6" "length idxs = n"
  shows "batch_of_records (concat (map scenario_image [0..<6]))
           (concat (map scenario_label [0..<6])) idxs =
         \<lparr> batch_xs = tensor2d (concat (map scenario_image idxs)) (n, IMAGE_SIZE),
           batch_labels = tensor2d (concat (map scenario_label idxs)) (n, NUM_CLASSES) \<rparr>"
  using scenario_records[OF assms(1)] assms(2) by (simp add: batch_of_records_def)

lemma scenario_train_4:
  "nextTrainBatch 4 scenario =
     (Inr \<lparr> batch_xs = tensor2d (concat (map scenario_image [0, 5, 2, 4])) (4, IMAGE_SIZE),
            batch_labels = tensor2d (concat (map scenario_label [0, 5, 2, 4])) (4, NUM_CLASSES) \<rparr>,
      scenario\<lparr>shuffledTrainIndex := Num 4\<rparr>)"
proof -
  have "nextTrainBatch 4 scenario =
      (Inr (batch_of_records (concat (map scenario_image [0..<6]))
              (concat (map scenario_label [0..<6])) [0, 5, 2, 4]),
       scenario\<lparr>shuffledTrainIndex := Num ((0 + 4) mod length scenario_perm)\<rparr>)"
    using nextTrainBatch_batch_of_records[OF scenario_loaded(1) scenario_fields(1,3,5,7), of 4]
    by (simp only: scenario_draws)
  moreover have "(0 + 4) mod length scenario_perm = 4"
    by (simp add: scenario_lengths)
  moreover have "batch_of_records (concat (map scenario_image [0..<6]))
           (concat (map scenario_label [0..<6])) [0, 5, 2, 4] =
         \<lparr> batch_xs = tensor2d (concat (map scenario_image [0, 5, 2, 4])) (4, IMAGE_SIZE),
           batch_labels = tensor2d (concat (map scenario_label [0, 5, 2, 4])) (4, NUM_CLASSES) \<rparr>"
    by (rule scenario_batch) simp_all
  ultimately show ?thesis by (simp only:)
qed

lemma scenario_train_6:
  "nextTrainBatch 6 scenario =
     (Inr \<lparr> batch_xs = tensor2d (concat (map scenario_image [0, 5, 2, 4, 1, 3])) (6, IMAGE_SIZE),
            batch_labels = tensor2d (concat (map scenario_label [0, 5, 2, 4, 1, 3]))
                             (6, NUM_CLASSES) \<rparr>,
      scenario\<lparr>shuffledTrainIndex := Num 0\<rparr>)"
proof -
  have "nextTrainBatch 6 scenario =
      (Inr (batch_of_records (concat (map scenario_image [0..<6]))
              (concat (map scenario_label [0..<6])) [0, 5, 2, 4, 1, 3]),
       scenario\<lparr>shuffledTrainIndex := Num ((0 + 6) mod length scenario_perm)\<rparr>)"
    using nextTrainBatch_batch_of_records[OF scenario_loaded(1) scenario_fields(1,3,5,7), of 6]
    by (simp only: scenario_draws)
  moreover have "(0 + 6) mod length scenario_perm = 0"
    by (simp add: scenario_lengths)
  moreover have "batch_of_records (concat (map scenario_image [0..<6]))
           (concat (map scenario_label [0..<6])) [0, 5, 2, 4, 1, 3] =
         \<lparr> batch_xs = tensor2d (concat (map scenario_image [0, 5, 2, 4, 1, 3])) (6, IMAGE_SIZE),
           batch_labels = tensor2d (concat (map scenario_label [0, 5, 2, 4, 1, 3]))
                            (6, NUM_CLASSES) \<rparr>"
    by (rule scenario_batch) simp_all
  ultimately show ?thesis by (simp only:)
qed

lemma IMAGE_SIZE_pos: "0 < IMAGE_SIZE"
  by (simp add: IMAGE_SIZE_def)

lemma hd_replicate_append: "0 < n \<Longrightarrow> hd (replicate n x @ ys) = x"
  by (cases n) simp_all

lemma hd_scenario_images:
  "hd (concat (map scenario_image (r # rs))) = real r / 255"
  by (simp add: scenario_image_def hd_replicate_append[OF IMAGE_SIZE_pos])

text \<open>
  Claim C3, as amended.  On the six-example partition with the permutation 3, 0, 5, 2, 4, 1
  and the cursor where the constructor put it (0), a batch of 4 draws the indices
  0, 5, 2, 4 in that order (the entries 1 to 4 of the permutation) and leaves the cursor at
  position 4, which points at index 4.
\<close>

theorem scenario_batch_of_four:
  "shuffledTrainIndex scenario = shuffledTrainIndex constructor \<and>
   nextTrainBatch 4 scenario =
     (Inr \<lparr> batch_xs = tensor2d (concat (map scenario_image [0, 5, 2, 4])) (4, IMAGE_SIZE),
            batch_labels = tensor2d (concat (map scenario_label [0, 5, 2, 4])) (4, NUM_CLASSES) \<rparr>,
      scenario\<lparr>shuffledTrainIndex := Num 4\<rparr>) \<and>
   scenario_perm ! 4 = 4"
  using scenario_train_4 by (simp add: scenario_def scenario_perm_def)

text \<open>
  The claim as it was stated fails there: the batch does not hold the examples
  3, 0, 5, 2, and the cursor does not end at position 3.
\<close>

theorem scenario_batch_of_four_counterexample:
  "\<not> (map_sum id (\<lambda>b. tvalues (batch_xs b)) (fst (nextTrainBatch 4 scenario))
         = Inr (concat (map scenario_image [3, 0, 5, 2])) \<and>
       shuffledTrainIndex (snd (nextTrainBatch 4 scenario)) = Num 3)"
  by (simp add: scenario_train_4)

subsection \<open>Claim C2: the order of draws\<close>

lemma draws_rotate1:
  assumes "perm \<noteq> []"
  shows "map (draw perm 0) [0..<length perm] = rotate1 perm"
proof (rule nth_equalityI)
  show "length (map (draw perm 0) [0..<length perm]) = length (rotate1 perm)" by simp
next
  fix i assume "i < length (map (draw perm 0) [0..<length perm])"
  then have i: "i < length perm" by simp
  then show "map (draw perm 0) [0..<length perm] ! i = rotate1 perm ! i"
    by (simp add: draw_def nth_rotate1)
qed

lemma permutation_covers:
  assumes "distinct perm" "\<forall>idx \<in> set perm. idx < length perm"
  shows "set perm = {0..<length perm}"
proof (rule card_subset_eq)
  show "finite {0..<length perm}" by simp
  show "set perm \<subseteq> {0..<length perm}" using assms(2) by auto
  show "card (set perm) = card {0..<length perm}"
    using assms(1) by (simp add: distinct_card)
qed

lemma draw_period: "perm \<noteq> [] \<Longrightarrow> draw perm c (k + length perm) = draw perm c k"
proof -
  have "(Suc (c + k) + length perm) mod length perm = Suc (c + k) mod length perm"
    by (rule mod_add_self2)
  moreover have "c + 1 + (k + length perm) = Suc (c + k) + length perm" by simp
  ultimately show ?thesis unfolding draw_def by (simp only:) simp
qed

text \<open>
  Claim C2, as amended.  On a loaded partition whose cursor is where the constructor put it,
  a batch of any size \<open>n\<close> holds the examples \<open>perm[(k + 1) mod P]\<close> for \<open>k = 0, \<dots>, n - 1\<close>,
  in that order.  When \<open>perm\<close> is a permutation of \<open>[0, P)\<close>, the first \<open>P\<close> draws are
  the permutation rotated by one place (it starts at \<open>perm[1]\<close> and ends with \<open>perm[0]\<close>),
  so they yield each index of \<open>[0, P)\<close> exactly once, and every draw equals the draw
  \<open>P\<close> places before it: the \<open>(P + 1)\<close>-th draw is the first one again and the order is
  never reshuffled.
\<close>

theorem draws_cycle_through_permutation:
  "(train_loaded s \<and> trainIndices s = Some perm \<and> trainImages s = Some images \<and>
    trainLabels s = Some lbls \<and> shuffledTrainIndex s = shuffledTrainIndex constructor \<longrightarrow>
      nextTrainBatch n s =
        (Inr (batch_of_records images lbls (map (\<lambda>k. perm ! ((k + 1) mod length perm)) [0..<n])),
         s\<lparr>shuffledTrainIndex := Num (n mod length perm)\<rparr>)) \<and>
   (test_loaded s \<and> testIndices s = Some perm \<and> testImages s = Some images \<and>
    testLabels s = Some lbls \<and> shuffledTestIndex s = shuffledTestIndex constructor \<longrightarrow>
      nextTestBatch n s =
        (Inr (batch_of_records images lbls (map (\<lambda>k. perm ! ((k + 1) mod length perm)) [0..<n])),
         s\<lparr>shuffledTestIndex := Num (n mod length perm)\<rparr>)) \<and>
   (perm \<noteq> [] \<and> distinct perm \<and> (\<forall>idx \<in> set perm. idx < length perm) \<longrightarrow>
      map (\<lambda>k. perm ! ((k + 1) mod length perm)) [0..<length perm] = rotate1 perm \<and>
      distinct (rotate1 perm) \<and> set (rotate1 perm) = {0..<length perm} \<and>
      (\<forall>k. perm ! ((k + length perm + 1) mod length perm) = perm ! ((k + 1) mod length perm)))"
proof (intro conjI impI)
  have d: "draw perm 0 = (\<lambda>k. perm ! ((k + 1) mod length perm))"
    by (rule ext) (simp add: draw_def)
  {
    assume a: "train_loaded s \<and> trainIndices s = Some perm \<and> trainImages s = Some images \<and>
      trainLabels s = Some lbls \<and> shuffledTrainIndex s = shuffledTrainIndex constructor"
    then have c: "shuffledTrainIndex s = Num 0" by (simp add: constructor_def)
    show "nextTrainBatch n s =
        (Inr (batch_of_records images lbls (map (\<lambda>k. perm ! ((k + 1) mod length perm)) [0..<n])),
         s\<lparr>shuffledTrainIndex := Num (n mod length perm)\<rparr>)"
      using nextTrainBatch_batch_of_records[of s perm images lbls 0 n] a c by (simp add: d)
  }
  {
    assume a: "test_loaded s \<and> testIndices s = Some perm \<and> testImages s = Some images \<and>
      testLabels s = Some lbls \<and> shuffledTestIndex s = shuffledTestIndex constructor"
    then have c: "shuffledTestIndex s = Num 0" by (simp add: constructor_def)
    show "nextTestBatch n s =
        (Inr (batch_of_records images lbls (map (\<lambda>k. perm ! ((k + 1) mod length perm)) [0..<n])),
         s\<lparr>shuffledTestIndex := Num (n mod length perm)\<rparr>)"
      using nextTestBatch_batch_of_records[of s perm images lbls 0 n] a c by (simp add: d)
  }
  assume p: "perm \<noteq> [] \<and> distinct perm \<and> (\<forall>idx \<in> set perm. idx < length perm)"
  show "map (\<lambda>k. perm ! ((k + 1) mod length perm)) [0..<length perm] = rotate1 perm"
    using draws_rotate1[of perm] p by (simp add: d)
  show "distinct (rotate1 perm)" using p by simp
  show "set (rotate1 perm) = {0..<length perm}"
    using permutation_covers[of perm] p by simp
  show "\<forall>k. perm ! ((k + length perm + 1) mod length perm) = perm ! ((k + 1) mod length perm)"
  proof
    fix k
    have "(Suc k + length perm) mod length perm = Suc k mod length perm"
      by (rule mod_add_self2)
    then show "perm ! ((k + length perm + 1) mod length perm) = perm ! ((k + 1) mod length perm)"
      by simp
  qed
qed

theorem draws_cycle_through_permutation_witness:
  "train_loaded scenario \<and> test_loaded scenario \<and> distinct scenario_perm \<and>
   nextTrainBatch 7 scenario =
     (Inr (batch_of_records (concat (map scenario_image [0..<6]))
             (concat (map scenario_label [0..<6])) [0, 5, 2, 4, 1, 3, 0]),
      scenario\<lparr>shuffledTrainIndex := Num 1\<rparr>) \<and>
   nextTestBatch 7 scenario =
     (Inr (batch_of_records (concat (map scenario_image [0..<6]))
             (concat (map scenario_label [0..<6])) [0, 5, 2, 4, 1, 3, 0]),
      scenario\<lparr>shuffledTestIndex := Num 1\<rparr>) \<and>
   rotate1 scenario_perm = [0, 5, 2, 4, 1, 3] \<and>
   set (rotate1 scenario_perm) = {0..<6}"
proof -
  have ds: "map (\<lambda>k. scenario_perm ! ((k + 1) mod length scenario_perm)) [0..<7]
              = [0, 5, 2, 4, 1, 3, 0]"
    by (simp add: scenario_perm_def upt_rec)
  have pm: "scenario_perm \<noteq> [] \<and> distinct scenario_perm \<and>
            (\<forall>idx \<in> set scenario_perm. idx < length scenario_perm)"
    by (simp add: scenario_perm_def)
  have c: "shuffledTrainIndex scenario = shuffledTrainIndex constructor"
     "shuffledTestIndex scenario = shuffledTestIndex constructor"
    by (simp_all add: scenario_def)
  have m: "7 mod length scenario_perm = 1" by (simp add: scenario_lengths)
  note T = draws_cycle_through_permutation[of scenario scenario_perm
            "concat (map scenario_image [0..<6])" "concat (map scenario_label [0..<6])" 7]
  have t1: "nextTrainBatch 7 scenario =
     (Inr (batch_of_records (concat (map scenario_image [0..<6]))
             (concat (map scenario_label [0..<6])) [0, 5, 2, 4, 1, 3, 0]),
      scenario\<lparr>shuffledTrainIndex := Num 1\<rparr>)"
    using T scenario_loaded(1) scenario_fields(1,3,5) c(1) unfolding ds m by blast
  have t2: "nextTestBatch 7 scenario =
     (Inr (batch_of_records (concat (map scenario_image [0..<6]))
             (concat (map scenario_label [0..<6])) [0, 5, 2, 4, 1, 3, 0]),
      scenario\<lparr>shuffledTestIndex := Num 1\<rparr>)"
    using T scenario_loaded(2) scenario_fields(2,4,6) c(2) unfolding ds m by blast
  have t3: "set (rotate1 scenario_perm) = {0..<length scenario_perm}"
    using T pm by blast
  have r: "rotate1 scenario_perm = [0, 5, 2, 4, 1, 3]" by (simp add: scenario_perm_def)
  show ?thesis
    using t1 t2 t3 r scenario_loaded pm by (simp only: scenario_lengths simp_thms)
qed

text \<open>
  The claim as it was stated fails on the six-example partition: six draws from the fresh
  cursor do not yield the examples in the order of the permutation 3, 0, 5, 2, 4, 1.
\<close>

theorem draws_cycle_through_permutation_counterexample:
  "map_sum id (\<lambda>b. tvalues (batch_xs b)) (fst (nextTrainBatch 6 scenario))
     \<noteq> Inr (concat (map scenario_image scenario_perm))"
proof
  assume "map_sum id (\<lambda>b. tvalues (batch_xs b)) (fst (nextTrainBatch 6 scenario))
     = Inr (concat (map scenario_image scenario_perm))"
  then have "concat (map scenario_image [0, 5, 2, 4, 1, 3])
               = concat (map scenario_image [3, 0, 5, 2, 4, 1])"
    by (simp add: scenario_train_6 tensor2d_def scenario_perm_def)
  then have "hd (concat (map scenario_image [0, 5, 2, 4, 1, 3]))
               = hd (concat (map scenario_image [3, 0, 5, 2, 4, 1]))"
    by (rule arg_cong)
  then show False unfolding hd_scenario_images by simp
qed

subsection \<open>Claim C8: batches of any size\<close>

lemma batch_of_records_shaped:
  assumes "partition_loaded (Some perm) (Some images) (Some lbls) (Num c)"
    "\<forall>idx \<in> set idxs. idx < length perm"
  shows "batch_shaped (batch_of_records images lbls idxs) (length idxs)"
proof -
  have p: "length images = length perm * IMAGE_SIZE" "length lbls = length perm * NUM_CLASSES"
    using assms(1) unfolding partition_loaded_def by simp_all
  have in1: "\<forall>idx \<in> set idxs. idx * IMAGE_SIZE + IMAGE_SIZE \<le> length images"
    using assms(2) record_in_corpus[OF _ p(1)] by simp
  have in2: "\<forall>idx \<in> set idxs. idx * NUM_CLASSES + NUM_CLASSES \<le> length lbls"
    using assms(2) record_in_corpus[OF _ p(2)] by simp
  show ?thesis
    using length_records_of[OF in1] length_records_of[OF in2]
    by (simp add: batch_shaped_def batch_of_records_def tensor2d_def)
qed

lemma batch_of_records_values:
  "(normalized images \<longrightarrow> normalized (tvalues (batch_xs (batch_of_records images lbls idxs)))) \<and>
   (zero_one lbls \<longrightarrow> zero_one (tvalues (batch_labels (batch_of_records images lbls idxs))))"
  using set_records_of[of images IMAGE_SIZE idxs] set_records_of[of lbls NUM_CLASSES idxs]
  by (auto simp: normalized_def zero_one_def batch_of_records_def tensor2d_def)

lemma partition_loaded_cursor:
  assumes "partition_loaded (Some perm) (Some images) (Some lbls) (Num c)"
  shows "partition_loaded (Some perm) (Some images) (Some lbls) (Num ((c + n) mod length perm))"
proof -
  have "0 < length perm" using assms by (cases perm) (auto simp: partition_loaded_def)
  then have "(c + n) mod length perm < length perm" by (rule mod_less_divisor)
  then show ?thesis using assms by (simp add: partition_loaded_def)
qed

lemma scenario_values:
  "normalized (concat (map scenario_image [0..<6]))"
  "zero_one (concat (map scenario_label [0..<6]))"
  by (auto simp: normalized_def zero_one_def scenario_image_def scenario_label_def)

text \<open>
  Claim C8.  On a loaded partition of size \<open>P\<close> with cursor \<open>c\<close>, a batch of any size
  (also one larger than \<open>P\<close>) succeeds.  It draws, for \<open>i\<close> below \<open>batchSize\<close>, the
  index \<open>perm[(c + 1 + i) mod P]\<close>, each of them below \<open>P\<close>, and returns exactly the
  batch of those records: images shaped \<open>[batchSize, 784]\<close>, labels shaped
  \<open>[batchSize, 10]\<close>.  The cursor has moved \<open>batchSize\<close> places around the index
  array, wrapping as often as that takes, and is left at \<open>(c + batchSize) mod P\<close>, below
  \<open>P\<close>, so that the partition stays loaded.  Every image value of the batch is a value of
  the partition, so it lies in \<open>[0, 1]\<close> when those do, and every label value is 0 or 1
  when those of the partition are.
\<close>

theorem nextBatch_any_size:
  "(train_loaded s \<and> trainIndices s = Some perm \<and> trainImages s = Some images \<and>
    trainLabels s = Some lbls \<and> shuffledTrainIndex s = Num c \<longrightarrow>
      (let idxs = map (\<lambda>i. perm ! ((c + 1 + i) mod length perm)) [0..<batchSize];
           b = batch_of_records images lbls idxs;
           s' = s\<lparr>shuffledTrainIndex := Num ((c + batchSize) mod length perm)\<rparr>
       in nextTrainBatch batchSize s = (Inr b, s') \<and>
          (c + batchSize) mod length perm < length perm \<and> train_loaded s' \<and>
          batch_shaped b batchSize \<and>
          length idxs = batchSize \<and> (\<forall>idx \<in> set idxs. idx < length perm) \<and>
          (normalized images \<longrightarrow> normalized (tvalues (batch_xs b))) \<and>
          (zero_one lbls \<longrightarrow> zero_one (tvalues (batch_labels b))))) \<and>
   (test_loaded s \<and> testIndices s = Some perm \<and> testImages s = Some images \<and>
    testLabels s = Some lbls \<and> shuffledTestIndex s = Num c \<longrightarrow>
      (let idxs = map (\<lambda>i. perm ! ((c + 1 + i) mod length perm)) [0..<batchSize];
           b = batch_of_records images lbls idxs;
           s' = s\<lparr>shuffledTestIndex := Num ((c + batchSize) mod length perm)\<rparr>
       in nextTestBatch batchSize s = (Inr b, s') \<and>
          (c + batchSize) mod length perm < length perm \<and> test_loaded s' \<and>
          batch_shaped b batchSize \<and>
          length idxs = batchSize \<and> (\<forall>idx \<in> set idxs. idx < length perm) \<and>
          (normalized images \<longrightarrow> normalized (tvalues (batch_xs b))) \<and>
          (zero_one lbls \<longrightarrow> zero_one (tvalues (batch_labels b)))))"
proof (intro conjI impI)
  have d: "draw perm c = (\<lambda>i. perm ! ((c + 1 + i) mod length perm))"
    by (rule ext) (simp add: draw_def)
  {
    assume a: "train_loaded s \<and> trainIndices s = Some perm \<and> trainImages s = Some images \<and>
      trainLabels s = Some lbls \<and> shuffledTrainIndex s = Num c"
    then have wf: "partition_loaded (Some perm) (Some images) (Some lbls) (Num c)"
      by (auto simp: train_loaded_def)
    define idxs where "idxs = map (\<lambda>i. perm ! ((c + 1 + i) mod length perm)) [0..<batchSize]"
    define s' where "s' = s\<lparr>shuffledTrainIndex := Num ((c + batchSize) mod length perm)\<rparr>"
    have p: "c < length perm" "\<forall>idx \<in> set perm. idx < length perm"
      using wf unfolding partition_loaded_def by simp_all
    have pos: "0 < length perm" using p(1) by (cases perm) auto
    have lt: "\<forall>idx \<in> set idxs. idx < length perm"
      unfolding idxs_def d[symmetric] using draw_less[OF p] by simp
    have len: "length idxs = batchSize" by (simp add: idxs_def)
    have run: "nextTrainBatch batchSize s = (Inr (batch_of_records images lbls idxs), s')"
      using nextTrainBatch_batch_of_records[of s perm images lbls c batchSize] a
      by (simp add: idxs_def s'_def d)
    have cur: "(c + batchSize) mod length perm < length perm"
      using pos by (rule mod_less_divisor)
    have ld: "train_loaded s'"
      using partition_loaded_cursor[OF wf, of batchSize] a by (simp add: train_loaded_def s'_def)
    have sh: "batch_shaped (batch_of_records images lbls idxs) batchSize"
      using batch_of_records_shaped[OF wf lt] len by simp
    show "let idxs = map (\<lambda>i. perm ! ((c + 1 + i) mod length perm)) [0..<batchSize];
           b = batch_of_records images lbls idxs;
           s' = s\<lparr>shuffledTrainIndex := Num ((c + batchSize) mod length perm)\<rparr>
       in nextTrainBatch batchSize s = (Inr b, s') \<and>
          (c + batchSize) mod length perm < length perm \<and> train_loaded s' \<and>
          batch_shaped b batchSize \<and>
          length idxs = batchSize \<and> (\<forall>idx \<in> set idxs. idx < length perm) \<and>
          (normalized images \<longrightarrow> normalized (tvalues (batch_xs b))) \<and>
          (zero_one lbls \<longrightarrow> zero_one (tvalues (batch_labels b)))"
      unfolding Let_def idxs_def[symmetric] s'_def[symmetric]
      using run cur ld sh len lt batch_of_records_values[of images lbls idxs] by simp
  }
  {
    assume a: "test_loaded s \<and> testIndices s = Some perm \<and> testImages s = Some images \<and>
      testLabels s = Some lbls \<and> shuffledTestIndex s = Num c"
    then have wf: "partition_loaded (Some perm) (Some images) (Some lbls) (Num c)"
      by (auto simp: test_loaded_def)
    define idxs where "idxs = map (\<lambda>i. perm ! ((c + 1 + i) mod length perm)) [0..<batchSize]"
    define s' where "s' = s\<lparr>shuffledTestIndex := Num ((c + batchSize) mod length perm)\<rparr>"
    have p: "c < length perm" "\<forall>idx \<in> set perm. idx < length perm"
      using wf unfolding partition_loaded_def by simp_all
    have pos: "0 < length perm" using p(1) by (cases perm) auto
    have lt: "\<forall>idx \<in> set idxs. idx < length perm"
      unfolding idxs_def d[symmetric] using draw_less[OF p] by simp
    have len: "length idxs = batchSize" by (simp add: idxs_def)
    have run: "nextTestBatch batchSize s = (Inr (batch_of_records images lbls idxs), s')"
      using nextTestBatch_batch_of_records[of s perm images lbls c batchSize] a
      by (simp add: idxs_def s'_def d)
    have cur: "(c + batchSize) mod length perm < length perm"
      using pos by (rule mod_less_divisor)
    have ld: "test_loaded s'"
      using partition_loaded_cursor[OF wf, of batchSize] a by (simp add: test_loaded_def s'_def)
    have sh: "batch_shaped (batch_of_records images lbls idxs) batchSize"
      using batch_of_records_shaped[OF wf lt] len by simp
    show "let idxs = map (\<lambda>i. perm ! ((c + 1 + i) mod length perm)) [0..<batchSize];
           b = batch_of_records images lbls idxs;
           s' = s\<lparr>shuffledTestIndex := Num ((c + batchSize) mod length perm)\<rparr>
       in nextTestBatch batchSize s = (Inr b, s') \<and>
          (c + batchSize) mod length perm < length perm \<and> test_loaded s' \<and>
          batch_shaped b batchSize \<and>
          length idxs = batchSize \<and> (\<forall>idx \<in> set idxs. idx < length perm) \<and>
          (normalized images \<longrightarrow> normalized (tvalues (batch_xs b))) \<and>
          (zero_one lbls \<longrightarrow> zero_one (tvalues (batch_labels b)))"
      unfolding Let_def idxs_def[symmetric] s'_def[symmetric]
      using run cur ld sh len lt batch_of_records_values[of images lbls idxs] by simp
  }
qed

theorem nextBatch_any_size_witness:
  "train_loaded scenario \<and> test_loaded scenario \<and>
   normalized (concat (map scenario_image [0..<6])) \<and>
   zero_one (concat (map scenario_label [0..<6])) \<and>
   nextTrainBatch 20 scenario =
     (Inr (batch_of_records (concat (map scenario_image [0..<6]))
             (concat (map scenario_label [0..<6]))
             [0, 5, 2, 4, 1, 3, 0, 5, 2, 4, 1, 3, 0, 5, 2, 4, 1, 3, 0, 5]),
      scenario\<lparr>shuffledTrainIndex := Num 2\<rparr>) \<and>
   train_loaded (scenario\<lparr>shuffledTrainIndex := Num 2\<rparr>) \<and>
   nextTestBatch 20 scenario =
     (Inr (batch_of_records (concat (map scenario_image [0..<6]))
             (concat (map scenario_label [0..<6]))
             [0, 5, 2, 4, 1, 3, 0, 5, 2, 4, 1, 3, 0, 5, 2, 4, 1, 3, 0, 5]),
      scenario\<lparr>shuffledTestIndex := Num 2\<rparr>) \<and>
   test_loaded (scenario\<lparr>shuffledTestIndex := Num 2\<rparr>) \<and>
   batch_shaped
     (batch_of_records (concat (map scenario_image [0..<6]))
        (concat (map scenario_label [0..<6]))
        [0, 5, 2, 4, 1, 3, 0, 5, 2, 4, 1, 3, 0, 5, 2, 4, 1, 3, 0, 5]) 20 \<and>
   normalized (tvalues (batch_xs
     (batch_of_records (concat (map scenario_image [0..<6]))
        (concat (map scenario_label [0..<6]))
        [0, 5, 2, 4, 1, 3, 0, 5, 2, 4, 1, 3, 0, 5, 2, 4, 1, 3, 0, 5]))) \<and>
   zero_one (tvalues (batch_labels
     (batch_of_records (concat (map scenario_image [0..<6]))
        (concat (map scenario_label [0..<6]))
        [0, 5, 2, 4, 1, 3, 0, 5, 2, 4, 1, 3, 0, 5, 2, 4, 1, 3, 0, 5])))"
proof -
  have ds: "map (\<lambda>i. scenario_perm ! ((0 + 1 + i) mod length scenario_perm)) [0..<20]
              = [0, 5, 2, 4, 1, 3, 0, 5, 2, 4, 1, 3, 0, 5, 2, 4, 1, 3, 0, 5]"
    by (simp add: scenario_perm_def upt_rec)
  have m: "(0 + 20) mod length scenario_perm = 2" by (simp add: scenario_lengths)
  note T = nextBatch_any_size[of scenario scenario_perm "concat (map scenario_image [0..<6])"
          "concat (map scenario_label [0..<6])" 0 20, unfolded Let_def ds m]
  show ?thesis
    using T scenario_loaded scenario_fields scenario_values by blast
qed

subsection \<open>Claim C10: what a batch call changes\<close>

lemma trainIndex_frame: "\<exists>c. snd (trainIndex s) = s\<lparr>shuffledTrainIndex := c\<rparr>"
proof (cases "trainIndices s")
  case None
  then have "snd (trainIndex s) = s\<lparr>shuffledTrainIndex := shuffledTrainIndex s\<rparr>"
    by (simp add: trainIndex_def)
  then show ?thesis ..
next
  case (Some perm)
  then have "snd (trainIndex s)
               = s\<lparr>shuffledTrainIndex := js_succ_mod (shuffledTrainIndex s) (length perm)\<rparr>"
    by (simp add: trainIndex_def Let_def)
  then show ?thesis ..
qed

lemma testIndex_frame: "\<exists>c. snd (testIndex s) = s\<lparr>shuffledTestIndex := c\<rparr>"
proof (cases "testIndices s")
  case None
  then have "snd (testIndex s) = s\<lparr>shuffledTestIndex := shuffledTestIndex s\<rparr>"
    by (simp add: testIndex_def)
  then show ?thesis ..
next
  case (Some perm)
  then have "snd (testIndex s)
               = s\<lparr>shuffledTestIndex := js_succ_mod (shuffledTestIndex s) (length perm)\<rparr>"
    by (simp add: testIndex_def Let_def)
  then show ?thesis ..
qed

lemma nextBatch_loop_state:
  "snd (nextBatch_loop (Suc n) i data index arrays s) = snd (index s) \<or>
   (\<exists>arrays'. snd (nextBatch_loop (Suc n) i data index arrays s)
        = snd (nextBatch_loop n (Suc i) data index arrays' (snd (index s))))"
  by (auto split: prod.splits sum.splits option.splits)

lemma nextBatch_loop_frame:
  assumes "\<And>t. \<exists>c. snd (index t) = upd c t"
    and "\<And>c c' t. upd c' (upd c t) = upd c' t"
    and "\<And>t. \<exists>c. t = upd c t"
  shows "\<exists>c. snd (nextBatch_loop n i data index arrays s) = upd c s"
proof (induction n arbitrary: i arrays s)
  case 0
  then show ?case using assms(3) by simp
next
  case (Suc n)
  obtain c where c: "snd (index s) = upd c s" using assms(1) by blast
  consider "snd (nextBatch_loop (Suc n) i data index arrays s) = snd (index s)"
    | arrays' where "snd (nextBatch_loop (Suc n) i data index arrays s)
        = snd (nextBatch_loop n (Suc i) data index arrays' (snd (index s)))"
    using nextBatch_loop_state[of n i data index arrays s] by blast
  then show ?case
  proof cases
    case 1
    then show ?thesis using c by auto
  next
    case 2
    obtain c' where "snd (nextBatch_loop n (Suc i) data index arrays' (snd (index s)))
                      = upd c' (snd (index s))"
      using Suc.IH by blast
    then have "snd (nextBatch_loop (Suc n) i data index arrays s) = upd c' s"
      using 2 c assms(2) by simp
    then show ?thesis ..
  qed
qed

lemma nextBatch_state:
  "snd (nextBatch n data index s)
     = snd (nextBatch_loop n 0 data index
              (replicate (n * IMAGE_SIZE) 0, replicate (n * NUM_CLASSES) 0) s)"
  by (simp add: nextBatch_def split: prod.splits sum.splits)

text \<open>
  Claim C10.  Whatever the object holds and whether the batch succeeds or throws, a call of
  \<open>nextTrainBatch\<close> leaves every field but the train cursor as it was: the test cursor,
  both corpora, the four partition arrays and both index arrays; and a call of
  \<open>nextTestBatch\<close> leaves every field but the test cursor as it was.
\<close>

theorem nextBatch_changes_only_its_cursor:
  "same_but_train_cursor s (snd (nextTrainBatch batchSize s)) \<and>
   same_but_test_cursor s (snd (nextTestBatch batchSize s))"
proof
  have "\<exists>c. snd (nextTrainBatch batchSize s) = s\<lparr>shuffledTrainIndex := c\<rparr>"
    unfolding nextTrainBatch_def nextBatch_state
    by (rule nextBatch_loop_frame[where upd = "\<lambda>c t. t\<lparr>shuffledTrainIndex := c\<rparr>"])
       (simp_all add: trainIndex_frame, metis MnistData.update_convs(1) MnistData.surjective)
  then show "same_but_train_cursor s (snd (nextTrainBatch batchSize s))"
    by (auto simp: same_but_train_cursor_def)
  have "\<exists>c. snd (nextTestBatch batchSize s) = s\<lparr>shuffledTestIndex := c\<rparr>"
    unfolding nextTestBatch_def nextBatch_state
    by (rule nextBatch_loop_frame[where upd = "\<lambda>c t. t\<lparr>shuffledTestIndex := c\<rparr>"])
       (simp_all add: testIndex_frame, metis MnistData.update_convs(2) MnistData.surjective)
  then show "same_but_test_cursor s (snd (nextTestBatch batchSize s))"
    by (auto simp: same_but_test_cursor_def)
qed

subsection \<open>Claim C5: the retry wrappers\<close>

lemma loadImagesWithRetry_three:
  assumes "opn 1 = Inl e1" "opn 2 = Inl e2"
  shows "loadImagesWithRetry opn 3 =
     \<lparr> outcome = (case opn 3 of Inl e \<Rightarrow> Inl e | Inr v \<Rightarrow> Inr (Some v)),
       attempts = 3, delays = [RETRY_DELAY * 1, RETRY_DELAY * 2] \<rparr>"
proof -
  have l3: "loadImagesWithRetry_loop opn 3 3 =
     \<lparr> outcome = (case opn 3 of Inl e \<Rightarrow> Inl e | Inr v \<Rightarrow> Inr (Some v)),
       attempts = 1, delays = [] \<rparr>"
    by (subst loadImagesWithRetry_loop.simps)
       (simp del: loadImagesWithRetry_loop.simps split: sum.splits)
  have l2: "loadImagesWithRetry_loop opn 3 2 =
     \<lparr> outcome = (case opn 3 of Inl e \<Rightarrow> Inl e | Inr v \<Rightarrow> Inr (Some v)),
       attempts = 2, delays = [RETRY_DELAY * 2] \<rparr>"
    by (subst loadImagesWithRetry_loop.simps)
       (simp add: assms l3 del: loadImagesWithRetry_loop.simps)
  have l1: "loadImagesWithRetry_loop opn 3 1 =
     \<lparr> outcome = (case opn 3 of Inl e \<Rightarrow> Inl e | Inr v \<Rightarrow> Inr (Some v)),
       attempts = 3, delays = [RETRY_DELAY * 1, RETRY_DELAY * 2] \<rparr>"
    by (subst loadImagesWithRetry_loop.simps)
       (simp add: assms l2 del: loadImagesWithRetry_loop.simps One_nat_def)
  show ?thesis by (simp only: loadImagesWithRetry_def l1)
qed

lemma loadLabelsWithRetry_three:
  assumes "opn 1 = Inl e1" "opn 2 = Inl e2"
  shows "loadLabelsWithRetry opn 3 =
     \<lparr> outcome = (case opn 3 of Inl e \<Rightarrow> Inl e | Inr v \<Rightarrow> Inr (Some v)),
       attempts = 3, delays = [RETRY_DELAY * 1, RETRY_DELAY * 2] \<rparr>"
proof -
  have l3: "loadLabelsWithRetry_loop opn 3 3 =
     \<lparr> outcome = (case opn 3 of Inl e \<Rightarrow> Inl e | Inr v \<Rightarrow> Inr (Some v)),
       attempts = 1, delays = [] \<rparr>"
    by (subst loadLabelsWithRetry_loop.simps)
       (simp del: loadLabelsWithRetry_loop.simps split: sum.splits)
  have l2: "loadLabelsWithRetry_loop opn 3 2 =
     \<lparr> outcome = (case opn 3 of Inl e \<Rightarrow> Inl e | Inr v \<Rightarrow> Inr (Some v)),
       attempts = 2, delays = [RETRY_DELAY * 2] \<rparr>"
    by (subst loadLabelsWithRetry_loop.simps)
       (simp add: assms l3 del: loadLabelsWithRetry_loop.simps)
  have l1: "loadLabelsWithRetry_loop opn 3 1 =
     \<lparr> outcome = (case opn 3 of Inl e \<Rightarrow> Inl e | Inr v \<Rightarrow> Inr (Some v)),
       attempts = 3, delays = [RETRY_DELAY * 1, RETRY_DELAY * 2] \<rparr>"
    by (subst loadLabelsWithRetry_loop.simps)
       (simp add: assms l2 del: loadLabelsWithRetry_loop.simps One_nat_def)
  show ?thesis by (simp only: loadLabelsWithRetry_def l1)
qed

text \<open>
  Claim C5.  For both retry wrappers with the default of \<open>MAX_RETRIES\<close> attempts: when the
  wrapped operation fails on the attempts 1 and 2 and succeeds on attempt 3, the wrapper
  returns that result after three attempts (two retries), having waited
  \<open>RETRY_DELAY * 1\<close> and then \<open>RETRY_DELAY * 2\<close>; when it fails on all three attempts,
  the wrapper throws, after three attempts and the same two waits, the very error of the
  third attempt.
\<close>

theorem retry_wrappers_retry_twice:
  "(imgOp 1 = Inl e1 \<and> imgOp 2 = Inl e2 \<and> imgOp 3 = Inr v \<longrightarrow>
      loadImagesWithRetry imgOp MAX_RETRIES =
        \<lparr> outcome = Inr (Some v), attempts = 3, delays = [RETRY_DELAY * 1, RETRY_DELAY * 2] \<rparr>) \<and>
   (imgOp 1 = Inl e1 \<and> imgOp 2 = Inl e2 \<and> imgOp 3 = Inl e3 \<longrightarrow>
      loadImagesWithRetry imgOp MAX_RETRIES =
        \<lparr> outcome = Inl e3, attempts = 3, delays = [RETRY_DELAY * 1, RETRY_DELAY * 2] \<rparr>) \<and>
   (lblOp 1 = Inl f1 \<and> lblOp 2 = Inl f2 \<and> lblOp 3 = Inr w \<longrightarrow>
      loadLabelsWithRetry lblOp MAX_RETRIES =
        \<lparr> outcome = Inr (Some w), attempts = 3, delays = [RETRY_DELAY * 1, RETRY_DELAY * 2] \<rparr>) \<and>
   (lblOp 1 = Inl f1 \<and> lblOp 2 = Inl f2 \<and> lblOp 3 = Inl f3 \<longrightarrow>
      loadLabelsWithRetry lblOp MAX_RETRIES =
        \<lparr> outcome = Inl f3, attempts = 3, delays = [RETRY_DELAY * 1, RETRY_DELAY * 2] \<rparr>)"
  using loadImagesWithRetry_three[of imgOp e1 e2] loadLabelsWithRetry_three[of lblOp f1 f2]
  by (simp add: MAX_RETRIES_def)

theorem retry_wrappers_retry_twice_witness:
  "loadImagesWithRetry
     (\<lambda>k. if k = 3 then Inr [0.5] else Inl (if k = 1 then ImageLoadTimeout else FailedToLoadSprite))
     MAX_RETRIES
     = \<lparr> outcome = Inr (Some [0.5]), attempts = 3, delays = [1000, 2000] \<rparr> \<and>
   loadImagesWithRetry (\<lambda>k. Inl (if k = 3 then ImageLoadTimeout else FailedToLoadSprite))
     MAX_RETRIES
     = \<lparr> outcome = Inl ImageLoadTimeout, attempts = 3, delays = [1000, 2000] \<rparr> \<and>
   loadLabelsWithRetry
     (\<lambda>k. if k = 3 then Inr [1] else Inl (FailedToLoadLabels (HttpError (500 + k))))
     MAX_RETRIES
     = \<lparr> outcome = Inr (Some [1]), attempts = 3, delays = [1000, 2000] \<rparr> \<and>
   loadLabelsWithRetry (\<lambda>k. Inl (FailedToLoadLabels (HttpError (500 + k)))) MAX_RETRIES
     = \<lparr> outcome = Inl (FailedToLoadLabels (HttpError 503)), attempts = 3,
         delays = [1000, 2000] \<rparr>"
  using retry_wrappers_retry_twice[of
          "\<lambda>k. if k = 3 then Inr [0.5] else Inl (if k = 1 then ImageLoadTimeout else FailedToLoadSprite)"
          ImageLoadTimeout FailedToLoadSprite "[0.5]" FailedToLoadSprite
          "\<lambda>k. if k = 3 then Inr [1] else Inl (FailedToLoadLabels (HttpError (500 + k)))"
          "FailedToLoadLabels (HttpError 501)" "FailedToLoadLabels (HttpError 502)" "[1]"
          "FailedToLoadLabels (HttpError 503)"]
        retry_wrappers_retry_twice[of
          "\<lambda>k. Inl (if k = 3 then ImageLoadTimeout else FailedToLoadSprite)"
          FailedToLoadSprite FailedToLoadSprite "[]" ImageLoadTimeout
          "\<lambda>k. Inl (FailedToLoadLabels (HttpError (500 + k)))"
          "FailedToLoadLabels (HttpError 501)" "FailedToLoadLabels (HttpError 502)" "[]"
          "FailedToLoadLabels (HttpError 503)"]
  by (simp add: RETRY_DELAY_def)

subsection \<open>Loading and validation\<close>

lemma NUM_TRAIN_ELEMENTS_value: "NUM_TRAIN_ELEMENTS = 54166"
proof -
  have "\<lfloor>(5 / 6 :: real) * 65000\<rfloor> = 54166"
    by (rule floor_unique) simp_all
  then show ?thesis
    by (simp add: NUM_TRAIN_ELEMENTS_def TRAIN_TEST_RATIO_def NUM_DATASET_ELEMENTS_def)
qed

lemma NUM_TEST_ELEMENTS_value: "NUM_TEST_ELEMENTS = 10834"
  by (simp add: NUM_TEST_ELEMENTS_def NUM_TRAIN_ELEMENTS_value NUM_DATASET_ELEMENTS_def)

lemma validateData_ok:
  "validateData s = Inr () \<longleftrightarrow>
     (\<exists>images lbls. datasetImages s = Some images \<and> datasetLabels s = Some lbls \<and>
        length images = NUM_DATASET_ELEMENTS * IMAGE_SIZE \<and>
        length lbls = NUM_DATASET_ELEMENTS * NUM_CLASSES)"
  by (auto simp: validateData_def Let_def NUM_DATASET_ELEMENTS_def IMAGE_SIZE_def NUM_CLASSES_def
           split: option.splits)

lemma validateData_error:
  "validateData s = Inl e \<Longrightarrow> is_validation_error e"
  by (auto simp: validateData_def Let_def is_validation_error_def split: option.splits if_splits)

lemma validateData_cases:
  "validateData s = Inr () \<or> (\<exists>e. validateData s = Inl e \<and> is_validation_error e)"
  by (cases "validateData s") (auto dest: validateData_error)

lemma load_success:
  assumes "load env s = (Inr (), s')"
  shows "\<exists>images lbls.
      outcome (loadImagesWithRetry (imageLoads env) MAX_RETRIES) = Inr (Some images) \<and>
      outcome (loadLabelsWithRetry (labelLoads env) MAX_RETRIES) = Inr (Some lbls) \<and>
      length images = NUM_DATASET_ELEMENTS * IMAGE_SIZE \<and>
      length lbls = NUM_DATASET_ELEMENTS * NUM_CLASSES \<and>
      s' = s\<lparr> datasetImages := Some images, datasetLabels := Some lbls,
              trainIndices := Some (createShuffledIndices env NUM_TRAIN_ELEMENTS),
              testIndices := Some (createShuffledIndices env NUM_TEST_ELEMENTS),
              trainImages := Some (slice images 0 (IMAGE_SIZE * NUM_TRAIN_ELEMENTS)),
              testImages := Some (slice_from images (IMAGE_SIZE * NUM_TRAIN_ELEMENTS)),
              trainLabels := Some (slice lbls 0 (NUM_CLASSES * NUM_TRAIN_ELEMENTS)),
              testLabels := Some (slice_from lbls (NUM_CLASSES * NUM_TRAIN_ELEMENTS)) \<rparr>"
proof -
  from assms obtain imageData labelData where
    pa: "promise_all (outcome (loadImagesWithRetry (imageLoads env) MAX_RETRIES))
             (outcome (loadLabelsWithRetry (labelLoads env) MAX_RETRIES))
             (imagesRejectFirst env) = Inr (imageData, labelData)"
    by (auto simp: load_def split: sum.splits)
  then have o: "outcome (loadImagesWithRetry (imageLoads env) MAX_RETRIES) = Inr imageData"
    "outcome (loadLabelsWithRetry (labelLoads env) MAX_RETRIES) = Inr labelData"
    by (auto simp: promise_all_def split: sum.splits)
  let ?s1 = "s\<lparr>datasetImages := imageData, datasetLabels := labelData\<rparr>"
  have v: "validateData ?s1 = Inr ()"
    using assms pa by (auto simp: load_def Let_def split: sum.splits)
  then obtain images lbls where d: "imageData = Some images" "labelData = Some lbls"
    "length images = NUM_DATASET_ELEMENTS * IMAGE_SIZE"
    "length lbls = NUM_DATASET_ELEMENTS * NUM_CLASSES"
    unfolding validateData_ok by auto
  have "s' = s\<lparr> datasetImages := Some images, datasetLabels := Some lbls,
              trainIndices := Some (createShuffledIndices env NUM_TRAIN_ELEMENTS),
              testIndices := Some (createShuffledIndices env NUM_TEST_ELEMENTS),
              trainImages := Some (slice images 0 (IMAGE_SIZE * NUM_TRAIN_ELEMENTS)),
              testImages := Some (slice_from images (IMAGE_SIZE * NUM_TRAIN_ELEMENTS)),
              trainLabels := Some (slice lbls 0 (NUM_CLASSES * NUM_TRAIN_ELEMENTS)),
              testLabels := Some (slice_from lbls (NUM_CLASSES * NUM_TRAIN_ELEMENTS)) \<rparr>"
    using assms pa v d(1,2) by (simp add: load_def Let_def split_train_test_def)
  then show ?thesis using o d by blast
qed

lemma load_invalid:
  assumes "outcome (loadImagesWithRetry (imageLoads env) MAX_RETRIES) = Inr imageData"
    "outcome (loadLabelsWithRetry (labelLoads env) MAX_RETRIES) = Inr labelData"
    "validateData (s\<lparr>datasetImages := imageData, datasetLabels := labelData\<rparr>) = Inl e"
  shows "load env s = (Inl (FailedToLoadDataset e),
                       s\<lparr>datasetImages := imageData, datasetLabels := labelData\<rparr>)"
  using assms by (simp add: load_def promise_all_def Let_def)

subsection \<open>Claim C4: load validates the sizes of the corpora\<close>

lemma retry_first_success:
  "opi 1 = Inr v \<Longrightarrow> outcome (loadImagesWithRetry opi MAX_RETRIES) = Inr (Some v)"
  "opl 1 = Inr w \<Longrightarrow> outcome (loadLabelsWithRetry opl MAX_RETRIES) = Inr (Some w)"
  by (simp_all add: loadImagesWithRetry_def loadLabelsWithRetry_def MAX_RETRIES_def
        del: One_nat_def)

lemma full_env_outcomes:
  "outcome (loadImagesWithRetry (imageLoads full_env) MAX_RETRIES)
     = Inr (Some (replicate (NUM_DATASET_ELEMENTS * IMAGE_SIZE) 0))"
  "outcome (loadLabelsWithRetry (labelLoads full_env) MAX_RETRIES)
     = Inr (Some (replicate (NUM_DATASET_ELEMENTS * NUM_CLASSES) 0))"
  by (simp_all add: retry_first_success full_env_def)

lemma short_labels_env_outcomes:
  "outcome (loadImagesWithRetry (imageLoads short_labels_env) MAX_RETRIES)
     = Inr (Some (replicate (NUM_DATASET_ELEMENTS * IMAGE_SIZE) 0))"
  "outcome (loadLabelsWithRetry (labelLoads short_labels_env) MAX_RETRIES)
     = Inr (Some (replicate 10 0))"
  by (simp_all add: retry_first_success short_labels_env_def full_env_def)

lemma load_valid:
  assumes "outcome (loadImagesWithRetry (imageLoads env) MAX_RETRIES) = Inr (Some images)"
    "outcome (loadLabelsWithRetry (labelLoads env) MAX_RETRIES) = Inr (Some lbls)"
    "length images = NUM_DATASET_ELEMENTS * IMAGE_SIZE"
    "length lbls = NUM_DATASET_ELEMENTS * NUM_CLASSES"
  shows "fst (load env s) = Inr ()"
proof -
  have "validateData (s\<lparr>datasetImages := Some images, datasetLabels := Some lbls\<rparr>) = Inr ()"
    unfolding validateData_ok using assms(3,4) by simp
  then show ?thesis
    using assms(1,2) by (simp add: load_def promise_all_def Let_def split_train_test_def)
qed

lemma full_env_loads: "fst (load full_env s) = Inr ()"
  by (rule load_valid[OF full_env_outcomes]) simp_all

text \<open>
  Claim C4.  \<open>load\<close> succeeds only when the image corpus has \<open>65000 * 784\<close> elements
  and the label corpus \<open>65000 * 10\<close> (and it does succeed when both retry wrappers deliver
  such corpora).  When both wrappers deliver corpora of which one is absent, empty or of
  another length, \<open>load\<close> throws its load failure around a validation error, the object
  holds the two corpora, and the index arrays and the four partition arrays are as they
  were before the call: nothing was partitioned and no permutation was made.
\<close>

theorem load_validates_sizes:
  "(fst (load env s) = Inr () \<longrightarrow>
      (\<exists>images lbls.
         datasetImages (snd (load env s)) = Some images \<and> length images = 65000 * 784 \<and>
         datasetLabels (snd (load env s)) = Some lbls \<and> length lbls = 65000 * 10)) \<and>
   (outcome (loadImagesWithRetry (imageLoads env) MAX_RETRIES) = Inr imageData \<and>
    outcome (loadLabelsWithRetry (labelLoads env) MAX_RETRIES) = Inr labelData \<longrightarrow>
      (if \<exists>images lbls. imageData = Some images \<and> length images = 65000 * 784 \<and>
                         labelData = Some lbls \<and> length lbls = 65000 * 10
       then fst (load env s) = Inr ()
       else (\<exists>e. load env s = (Inl (FailedToLoadDataset e),
                                s\<lparr>datasetImages := imageData, datasetLabels := labelData\<rparr>) \<and>
                  is_validation_error e) \<and>
            trainIndices (snd (load env s)) = trainIndices s \<and>
            testIndices (snd (load env s)) = testIndices s \<and>
            trainImages (snd (load env s)) = trainImages s \<and>
            testImages (snd (load env s)) = testImages s \<and>
            trainLabels (snd (load env s)) = trainLabels s \<and>
            testLabels (snd (load env s)) = testLabels s))"
proof (intro conjI impI)
  assume "fst (load env s) = Inr ()"
  then have "load env s = (Inr (), snd (load env s))"
    by (metis prod.collapse)
  from load_success[OF this]
  show "\<exists>images lbls.
         datasetImages (snd (load env s)) = Some images \<and> length images = 65000 * 784 \<and>
         datasetLabels (snd (load env s)) = Some lbls \<and> length lbls = 65000 * 10"
    by (auto simp: NUM_DATASET_ELEMENTS_def IMAGE_SIZE_def NUM_CLASSES_def)
next
  assume o: "outcome (loadImagesWithRetry (imageLoads env) MAX_RETRIES) = Inr imageData \<and>
    outcome (loadLabelsWithRetry (labelLoads env) MAX_RETRIES) = Inr labelData"
  let ?ok = "\<exists>images lbls. imageData = Some images \<and> length images = 65000 * 784 \<and>
                         labelData = Some lbls \<and> length lbls = 65000 * 10"
  let ?s1 = "s\<lparr>datasetImages := imageData, datasetLabels := labelData\<rparr>"
  have v: "validateData ?s1 = Inr () \<longleftrightarrow> ?ok"
    unfolding validateData_ok
    by (auto simp: NUM_DATASET_ELEMENTS_def IMAGE_SIZE_def NUM_CLASSES_def)
  show "if ?ok then fst (load env s) = Inr ()
       else (\<exists>e. load env s = (Inl (FailedToLoadDataset e), ?s1) \<and> is_validation_error e) \<and>
            trainIndices (snd (load env s)) = trainIndices s \<and>
            testIndices (snd (load env s)) = testIndices s \<and>
            trainImages (snd (load env s)) = trainImages s \<and>
            testImages (snd (load env s)) = testImages s \<and>
            trainLabels (snd (load env s)) = trainLabels s \<and>
            testLabels (snd (load env s)) = testLabels s"
  proof (cases ?ok)
    case True
    then obtain images lbls where d: "imageData = Some images" "length images = 65000 * 784"
      "labelData = Some lbls" "length lbls = 65000 * 10" by blast
    have "fst (load env s) = Inr ()"
      by (rule load_valid[of env images lbls])
         (use o d in \<open>simp_all add: NUM_DATASET_ELEMENTS_def IMAGE_SIZE_def NUM_CLASSES_def\<close>)
    then show ?thesis using True by simp
  next
    case False
    then have "validateData ?s1 \<noteq> Inr ()" using v by simp
    then obtain e where e: "validateData ?s1 = Inl e" "is_validation_error e"
      using validateData_cases[of ?s1] by blast
    have "load env s = (Inl (FailedToLoadDataset e), ?s1)"
      using load_invalid[of env imageData labelData s e] o e(1) by simp
    then show ?thesis using False e(2) by simp
  qed
qed

theorem load_validates_sizes_witness:
  "fst (load full_env constructor) = Inr () \<and>
   (\<exists>images lbls.
      datasetImages (snd (load full_env constructor)) = Some images \<and>
      length images = 65000 * 784 \<and>
      datasetLabels (snd (load full_env constructor)) = Some lbls \<and>
      length lbls = 65000 * 10) \<and>
   load short_labels_env constructor =
     (Inl (FailedToLoadDataset (InvalidLabelDataSize 650000 10)),
      constructor\<lparr> datasetImages := Some (replicate (NUM_DATASET_ELEMENTS * IMAGE_SIZE) 0),
                   datasetLabels := Some (replicate 10 0) \<rparr>) \<and>
   trainIndices (snd (load short_labels_env constructor)) = None \<and>
   testIndices (snd (load short_labels_env constructor)) = None \<and>
   trainImages (snd (load short_labels_env constructor)) = None \<and>
   testImages (snd (load short_labels_env constructor)) = None \<and>
   trainLabels (snd (load short_labels_env constructor)) = None \<and>
   testLabels (snd (load short_labels_env constructor)) = None"
proof -
  have ok: "\<exists>images lbls.
      Some (replicate (NUM_DATASET_ELEMENTS * IMAGE_SIZE) (0::real)) = Some images \<and>
      length images = 65000 * 784 \<and>
      Some (replicate (NUM_DATASET_ELEMENTS * NUM_CLASSES) (0::uint8)) = Some lbls \<and>
      length lbls = 65000 * 10"
    by (simp add: NUM_DATASET_ELEMENTS_def IMAGE_SIZE_def NUM_CLASSES_def)
  have bad: "\<not> (\<exists>images lbls.
      Some (replicate (NUM_DATASET_ELEMENTS * IMAGE_SIZE) (0::real)) = Some images \<and>
      length images = 65000 * 784 \<and>
      Some (replicate 10 (0::uint8)) = Some lbls \<and> length lbls = 65000 * 10)"
    by simp
  have v: "validateData (constructor\<lparr> datasetImages := Some (replicate (NUM_DATASET_ELEMENTS * IMAGE_SIZE) 0),
                   datasetLabels := Some (replicate 10 0) \<rparr>) = Inl (InvalidLabelDataSize 650000 10)"
    by (simp add: validateData_def NUM_DATASET_ELEMENTS_def IMAGE_SIZE_def NUM_CLASSES_def)
  have 1: "fst (load full_env constructor) = Inr ()"
    using load_validates_sizes[of full_env constructor
            "Some (replicate (NUM_DATASET_ELEMENTS * IMAGE_SIZE) 0)"
            "Some (replicate (NUM_DATASET_ELEMENTS * NUM_CLASSES) 0)"]
          full_env_outcomes ok
    by (simp only: simp_thms if_True)
  have 2: "(\<exists>e. load short_labels_env constructor =
             (Inl (FailedToLoadDataset e),
              constructor\<lparr> datasetImages := Some (replicate (NUM_DATASET_ELEMENTS * IMAGE_SIZE) 0),
                   datasetLabels := Some (replicate 10 0) \<rparr>) \<and> is_validation_error e) \<and>
            trainIndices (snd (load short_labels_env constructor)) = trainIndices constructor \<and>
            testIndices (snd (load short_labels_env constructor)) = testIndices constructor \<and>
            trainImages (snd (load short_labels_env constructor)) = trainImages constructor \<and>
            testImages (snd (load short_labels_env constructor)) = testImages constructor \<and>
            trainLabels (snd (load short_labels_env constructor)) = trainLabels constructor \<and>
            testLabels (snd (load short_labels_env constructor)) = testLabels constructor"
    using load_validates_sizes[of short_labels_env constructor
            "Some (replicate (NUM_DATASET_ELEMENTS * IMAGE_SIZE) 0)"
            "Some (replicate 10 0)"]
          short_labels_env_outcomes bad
    by (simp only: simp_thms if_False)
  have 3: "load short_labels_env constructor =
     (Inl (FailedToLoadDataset (InvalidLabelDataSize 650000 10)),
      constructor\<lparr> datasetImages := Some (replicate (NUM_DATASET_ELEMENTS * IMAGE_SIZE) 0),
                   datasetLabels := Some (replicate 10 0) \<rparr>)"
    using load_invalid[OF short_labels_env_outcomes v] .
  have 4: "\<exists>images lbls.
      datasetImages (snd (load full_env constructor)) = Some images \<and>
      length images = 65000 * 784 \<and>
      datasetLabels (snd (load full_env constructor)) = Some lbls \<and>
      length lbls = 65000 * 10"
    using load_validates_sizes[of full_env constructor None None] 1 by blast
  show ?thesis using 1 2 3 4 by (simp add: constructor_def)
qed

subsection \<open>Claim C6: the train and test partitions\<close>

lemma slice_prefix: "slice ys 0 e = take e ys"
  by (simp add: slice_def Let_def min_def)

lemma slice_from_drop: "slice_from ys b = drop b ys"
  by (simp add: slice_from_def slice_def Let_def min_def)

text \<open>
  Claim C6.  After a successful load the training partition is the first
  \<open>\<lfloor>5/6 * 65000\<rfloor> = 54166\<close> examples of the corpus and the test partition the
  remaining \<open>65000 - 54166 = 10834\<close>, in corpus order: the train images are the first
  \<open>784 * 54166\<close> image elements and the test images the rest, element \<open>k\<close> of the test
  images being element \<open>784 * 54166 + k\<close> of the corpus; likewise for the labels with
  stride 10.
\<close>

theorem load_partitions_corpus:
  "fst (load env s) = Inr () \<longrightarrow>
     (let s' = snd (load env s)
      in \<exists>images lbls trainIm testIm trainLb testLb.
           datasetImages s' = Some images \<and> datasetLabels s' = Some lbls \<and>
           trainImages s' = Some trainIm \<and> testImages s' = Some testIm \<and>
           trainLabels s' = Some trainLb \<and> testLabels s' = Some testLb \<and>
           NUM_TRAIN_ELEMENTS = 54166 \<and> NUM_TEST_ELEMENTS = 10834 \<and>
           length trainIm = 784 * 54166 \<and> length testIm = 784 * 10834 \<and>
           length trainLb = 10 * 54166 \<and> length testLb = 10 * 10834 \<and>
           trainIm @ testIm = images \<and> trainLb @ testLb = lbls \<and>
           (\<forall>k < 784 * 54166. trainIm ! k = images ! k) \<and>
           (\<forall>k < 784 * 10834. testIm ! k = images ! (784 * 54166 + k)) \<and>
           (\<forall>k < 10 * 54166. trainLb ! k = lbls ! k) \<and>
           (\<forall>k < 10 * 10834. testLb ! k = lbls ! (10 * 54166 + k)))"
proof
  assume "fst (load env s) = Inr ()"
  then have "load env s = (Inr (), snd (load env s))"
    by (metis prod.collapse)
  from load_success[OF this] obtain images lbls where
    len: "length images = NUM_DATASET_ELEMENTS * IMAGE_SIZE"
         "length lbls = NUM_DATASET_ELEMENTS * NUM_CLASSES"
    and s': "snd (load env s) = s\<lparr> datasetImages := Some images, datasetLabels := Some lbls,
              trainIndices := Some (createShuffledIndices env NUM_TRAIN_ELEMENTS),
              testIndices := Some (createShuffledIndices env NUM_TEST_ELEMENTS),
              trainImages := Some (slice images 0 (IMAGE_SIZE * NUM_TRAIN_ELEMENTS)),
              testImages := Some (slice_from images (IMAGE_SIZE * NUM_TRAIN_ELEMENTS)),
              trainLabels := Some (slice lbls 0 (NUM_CLASSES * NUM_TRAIN_ELEMENTS)),
              testLabels := Some (slice_from lbls (NUM_CLASSES * NUM_TRAIN_ELEMENTS)) \<rparr>"
    by blast
  have li: "length images = 50960000" and ll: "length lbls = 650000"
    using len by (simp_all add: NUM_DATASET_ELEMENTS_def IMAGE_SIZE_def NUM_CLASSES_def)
  have c: "IMAGE_SIZE * NUM_TRAIN_ELEMENTS = 784 * 54166"
          "NUM_CLASSES * NUM_TRAIN_ELEMENTS = 10 * 54166"
    by (simp_all add: IMAGE_SIZE_def NUM_CLASSES_def NUM_TRAIN_ELEMENTS_value)
  show "let s' = snd (load env s)
      in \<exists>images lbls trainIm testIm trainLb testLb.
           datasetImages s' = Some images \<and> datasetLabels s' = Some lbls \<and>
           trainImages s' = Some trainIm \<and> testImages s' = Some testIm \<and>
           trainLabels s' = Some trainLb \<and> testLabels s' = Some testLb \<and>
           NUM_TRAIN_ELEMENTS = 54166 \<and> NUM_TEST_ELEMENTS = 10834 \<and>
           length trainIm = 784 * 54166 \<and> length testIm = 784 * 10834 \<and>
           length trainLb = 10 * 54166 \<and> length testLb = 10 * 10834 \<and>
           trainIm @ testIm = images \<and> trainLb @ testLb = lbls \<and>
           (\<forall>k < 784 * 54166. trainIm ! k = images ! k) \<and>
           (\<forall>k < 784 * 10834. testIm ! k = images ! (784 * 54166 + k)) \<and>
           (\<forall>k < 10 * 54166. trainLb ! k = lbls ! k) \<and>
           (\<forall>k < 10 * 10834. testLb ! k = lbls ! (10 * 54166 + k))"
    unfolding Let_def s' slice_prefix slice_from_drop c
    apply (rule exI[of _ images])
    apply (rule exI[of _ lbls])
    apply (rule exI[of _ "take (784 * 54166) images"])
    apply (rule exI[of _ "drop (784 * 54166) images"])
    apply (rule exI[of _ "take (10 * 54166) lbls"])
    apply (rule exI[of _ "drop (10 * 54166) lbls"])
    using li ll by (simp add: NUM_TRAIN_ELEMENTS_value NUM_TEST_ELEMENTS_value)
qed

theorem load_partitions_corpus_witness:
  "fst (load full_env constructor) = Inr () \<and>
   (\<exists>images trainIm testIm.
      datasetImages (snd (load full_env constructor)) = Some images \<and>
      trainImages (snd (load full_env constructor)) = Some trainIm \<and>
      testImages (snd (load full_env constructor)) = Some testIm \<and>
      length trainIm = 784 * 54166 \<and> length testIm = 784 * 10834 \<and>
      trainIm @ testIm = images)"
  using load_partitions_corpus[of full_env constructor] full_env_loads[of constructor]
  unfolding Let_def by blast

subsection \<open>Claim C9: the cursors stay in bounds\<close>

lemma cursors_in_bounds_iff:
  "cursors_in_bounds s \<longleftrightarrow>
     (\<exists>a b trainPerm testPerm.
        shuffledTrainIndex s = Num a \<and> trainIndices s = Some trainPerm \<and>
        shuffledTestIndex s = Num b \<and> testIndices s = Some testPerm \<and>
        a < length trainPerm \<and> length trainPerm = NUM_TRAIN_ELEMENTS \<and>
        b < length testPerm \<and> length testPerm = NUM_TEST_ELEMENTS)"
  by (cases "shuffledTrainIndex s"; cases "trainIndices s"; cases "shuffledTestIndex s";
      cases "testIndices s")
     (simp_all add: cursors_in_bounds_def)

lemma trainIndex_keeps_bounds:
  assumes "cursors_in_bounds s"
  shows "cursors_in_bounds (snd (trainIndex s))"
proof -
  from assms obtain a b trainPerm testPerm where f:
    "shuffledTrainIndex s = Num a" "trainIndices s = Some trainPerm"
    "shuffledTestIndex s = Num b" "testIndices s = Some testPerm"
    "a < length trainPerm" "length trainPerm = NUM_TRAIN_ELEMENTS"
    "b < length testPerm" "length testPerm = NUM_TEST_ELEMENTS"
    unfolding cursors_in_bounds_iff by blast
  have ne: "trainPerm \<noteq> []" and pos: "0 < length trainPerm" using f(5) by auto
  have "snd (trainIndex s) = s\<lparr>shuffledTrainIndex := Num ((a + 1) mod length trainPerm)\<rparr>"
    using trainIndex_step[OF f(2,1) ne] by simp
  moreover have "(a + 1) mod length trainPerm < length trainPerm"
    using pos by (rule mod_less_divisor)
  ultimately show ?thesis
    unfolding cursors_in_bounds_iff using f by simp
qed

lemma testIndex_keeps_bounds:
  assumes "cursors_in_bounds s"
  shows "cursors_in_bounds (snd (testIndex s))"
proof -
  from assms obtain a b trainPerm testPerm where f:
    "shuffledTrainIndex s = Num a" "trainIndices s = Some trainPerm"
    "shuffledTestIndex s = Num b" "testIndices s = Some testPerm"
    "a < length trainPerm" "length trainPerm = NUM_TRAIN_ELEMENTS"
    "b < length testPerm" "length testPerm = NUM_TEST_ELEMENTS"
    unfolding cursors_in_bounds_iff by blast
  have ne: "testPerm \<noteq> []" and pos: "0 < length testPerm" using f(7) by auto
  have "snd (testIndex s) = s\<lparr>shuffledTestIndex := Num ((b + 1) mod length testPerm)\<rparr>"
    using testIndex_step[OF f(4,3) ne] by simp
  moreover have "(b + 1) mod length testPerm < length testPerm"
    using pos by (rule mod_less_divisor)
  ultimately show ?thesis
    unfolding cursors_in_bounds_iff using f by simp
qed

lemma nextBatch_loop_invariant:
  assumes "\<And>t. I t \<Longrightarrow> I (snd (index t))"
  shows "I s \<Longrightarrow> I (snd (nextBatch_loop n i data index arrays s))"
proof (induction n arbitrary: i arrays s)
  case 0
  then show ?case by simp
next
  case (Suc n)
  have I': "I (snd (index s))" using assms Suc.prems by blast
  consider "snd (nextBatch_loop (Suc n) i data index arrays s) = snd (index s)"
    | arrays' where "snd (nextBatch_loop (Suc n) i data index arrays s)
        = snd (nextBatch_loop n (Suc i) data index arrays' (snd (index s)))"
    using nextBatch_loop_state[of n i data index arrays s] by blast
  then show ?case
  proof cases
    case 1
    then show ?thesis using I' by simp
  next
    case 2
    then show ?thesis using Suc.IH[OF I'] by simp
  qed
qed

lemma batch_calls_keep_bounds:
  assumes "cursors_in_bounds s"
  shows "cursors_in_bounds (snd (nextTrainBatch n s))"
    and "cursors_in_bounds (snd (nextTestBatch n s))"
  unfolding nextTrainBatch_def nextTestBatch_def nextBatch_state
  using assms trainIndex_keeps_bounds testIndex_keeps_bounds
  by (auto intro: nextBatch_loop_invariant)

lemma run_calls_keeps_bounds:
  "cursors_in_bounds s \<Longrightarrow> cursors_in_bounds (run_calls calls s)"
proof (induction calls arbitrary: s)
  case Nil
  then show ?case by simp
next
  case (Cons c calls)
  then show ?case by (cases c) (simp_all add: batch_calls_keep_bounds)
qed

lemma load_cursors_in_bounds:
  assumes "fst (load env constructor) = Inr ()"
    "length (createShuffledIndices env NUM_TRAIN_ELEMENTS) = NUM_TRAIN_ELEMENTS"
    "length (createShuffledIndices env NUM_TEST_ELEMENTS) = NUM_TEST_ELEMENTS"
  shows "cursors_in_bounds (snd (load env constructor))"
proof -
  have "load env constructor = (Inr (), snd (load env constructor))"
    using assms(1) by (metis prod.collapse)
  from load_success[OF this] obtain images lbls where
    "snd (load env constructor) = constructor\<lparr> datasetImages := Some images,
              datasetLabels := Some lbls,
              trainIndices := Some (createShuffledIndices env NUM_TRAIN_ELEMENTS),
              testIndices := Some (createShuffledIndices env NUM_TEST_ELEMENTS),
              trainImages := Some (slice images 0 (IMAGE_SIZE * NUM_TRAIN_ELEMENTS)),
              testImages := Some (slice_from images (IMAGE_SIZE * NUM_TRAIN_ELEMENTS)),
              trainLabels := Some (slice lbls 0 (NUM_CLASSES * NUM_TRAIN_ELEMENTS)),
              testLabels := Some (slice_from lbls (NUM_CLASSES * NUM_TRAIN_ELEMENTS)) \<rparr>"
    by blast
  then show ?thesis
    unfolding cursors_in_bounds_iff using assms(2,3)
    by (simp add: constructor_def NUM_TRAIN_ELEMENTS_value NUM_TEST_ELEMENTS_value)
qed

text \<open>
  Claim C9.  After a successful load of a new object, with an index-array maker that
  returns arrays of the requested length, every finite sequence of \<open>nextTrainBatch\<close> and
  \<open>nextTestBatch\<close> calls of any batch sizes leaves the train cursor a number below 54166,
  the length of the train index array, and the test cursor a number below 10834, the length
  of the test index array.
\<close>

theorem cursors_stay_in_bounds:
  "fst (load env constructor) = Inr () \<and>
   length (createShuffledIndices env NUM_TRAIN_ELEMENTS) = NUM_TRAIN_ELEMENTS \<and>
   length (createShuffledIndices env NUM_TEST_ELEMENTS) = NUM_TEST_ELEMENTS \<longrightarrow>
     (let s' = run_calls calls (snd (load env constructor))
      in \<exists>a b trainPerm testPerm.
           shuffledTrainIndex s' = Num a \<and> a < 54166 \<and>
           trainIndices s' = Some trainPerm \<and> length trainPerm = 54166 \<and>
           shuffledTestIndex s' = Num b \<and> b < 10834 \<and>
           testIndices s' = Some testPerm \<and> length testPerm = 10834)"
proof
  assume a: "fst (load env constructor) = Inr () \<and>
   length (createShuffledIndices env NUM_TRAIN_ELEMENTS) = NUM_TRAIN_ELEMENTS \<and>
   length (createShuffledIndices env NUM_TEST_ELEMENTS) = NUM_TEST_ELEMENTS"
  then have "cursors_in_bounds (snd (load env constructor))"
    by (intro load_cursors_in_bounds) simp_all
  then have "cursors_in_bounds (run_calls calls (snd (load env constructor)))"
    by (rule run_calls_keeps_bounds)
  then show "let s' = run_calls calls (snd (load env constructor))
      in \<exists>a b trainPerm testPerm.
           shuffledTrainIndex s' = Num a \<and> a < 54166 \<and>
           trainIndices s' = Some trainPerm \<and> length trainPerm = 54166 \<and>
           shuffledTestIndex s' = Num b \<and> b < 10834 \<and>
           testIndices s' = Some testPerm \<and> length testPerm = 10834"
    unfolding cursors_in_bounds_iff Let_def
    by (auto simp: NUM_TRAIN_ELEMENTS_value NUM_TEST_ELEMENTS_value)
qed

theorem cursors_stay_in_bounds_witness:
  "fst (load full_env constructor) = Inr () \<and>
   length (createShuffledIndices full_env NUM_TRAIN_ELEMENTS) = NUM_TRAIN_ELEMENTS \<and>
   length (createShuffledIndices full_env NUM_TEST_ELEMENTS) = NUM_TEST_ELEMENTS \<and>
   (\<exists>a b. shuffledTrainIndex
             (run_calls [NextTrainBatch 60000, NextTestBatch 1000, NextTrainBatch 512]
                (snd (load full_env constructor))) = Num a \<and> a < 54166 \<and>
          shuffledTestIndex
             (run_calls [NextTrainBatch 60000, NextTestBatch 1000, NextTrainBatch 512]
                (snd (load full_env constructor))) = Num b \<and> b < 10834)"
proof -
  have l: "length (createShuffledIndices full_env NUM_TRAIN_ELEMENTS) = NUM_TRAIN_ELEMENTS"
    "length (createShuffledIndices full_env NUM_TEST_ELEMENTS) = NUM_TEST_ELEMENTS"
    by (simp_all add: full_env_def)
  show ?thesis
    using cursors_stay_in_bounds[of full_env
            "[NextTrainBatch 60000, NextTestBatch 1000, NextTrainBatch 512]"]
          full_env_loads[of constructor] l
    unfolding Let_def by blast
qed

subsection \<open>The sprite decoder\<close>

lemma write_fold_closed:
  assumes "m \<le> len" "off + len \<le> length buffer"
  shows "fold (\<lambda>j buf. if j < len then buf[off + j := h j] else buf) [0..<m] buffer
           = take off buffer @ map h [0..<m] @ drop (off + m) buffer"
  using assms(1)
proof (induction m)
  case 0
  then show ?case by simp
next
  case (Suc m)
  have lt: "off + m < length buffer" using Suc.prems assms(2) by simp
  have l1: "length (take off buffer) = off" using lt by simp
  have d: "drop (off + m) buffer = buffer ! (off + m) # drop (off + Suc m) buffer"
    using lt by (simp add: Cons_nth_drop_Suc)
  have "fold (\<lambda>j buf. if j < len then buf[off + j := h j] else buf) [0..<Suc m] buffer
          = (take off buffer @ map h [0..<m] @ drop (off + m) buffer)[off + m := h m]"
    using Suc by simp
  also have "\<dots> = take off buffer @ (map h [0..<m] @ drop (off + m) buffer)[m := h m]"
    using l1 by (simp add: list_update_append)
  also have "(map h [0..<m] @ drop (off + m) buffer)[m := h m]
               = map h [0..<m] @ (drop (off + m) buffer)[0 := h m]"
    by (simp add: list_update_append)
  also have "(drop (off + m) buffer)[0 := h m] = h m # drop (off + Suc m) buffer"
    by (subst d) simp
  finally show ?case by simp
qed

lemma write_chunk_closed:
  assumes "length data = 4 * len" "off + len \<le> length buffer"
  shows "write_chunk f32 data off len buffer
           = take off buffer @ map (\<lambda>j. f32 (real (unat (data ! (j * 4))) / 255)) [0..<len]
               @ drop (off + len) buffer"
proof -
  have "length data div 4 = len" using assms(1) by simp
  then show ?thesis
    unfolding write_chunk_def
    using write_fold_closed[of len len off buffer "\<lambda>j. f32 (real (unat (data ! (j * 4))) / 255)"]
      assms(2)
    by simp
qed

lemma chunkSize_pos: "0 < chunkSize"
  by (simp add: chunkSize_def)

lemma thirteen_chunks: "NUM_DATASET_ELEMENTS = 13 * chunkSize"
  by (simp add: NUM_DATASET_ELEMENTS_def chunkSize_def)

lemma length_drawImage:
  assumes "length canvas = rows * (4 * naturalWidth img)"
  shows "length (drawImage img sy rows canvas) = length canvas"
proof -
  let ?src = "take (rows * (4 * naturalWidth img)) (drop (sy * (4 * naturalWidth img)) (pixels img))"
  have "length ?src \<le> length canvas" using assms by simp
  then show ?thesis by (simp add: drawImage_def Let_def)
qed

lemma length_canvas_before:
  "length (canvas_before img i) = 4 * naturalWidth img * chunkSize"
proof (induction i)
  case 0
  then show ?case by simp
next
  case (Suc i)
  have "length (canvas_before img i) = chunkSize * (4 * naturalWidth img)"
    using Suc by (simp add: mult.commute)
  then show ?case using Suc by (simp add: length_drawImage)
qed

lemma chunk_step:
  assumes W: "naturalWidth img = IMAGE_SIZE"
    and i: "i < 13"
    and lb: "length buffer = NUM_DATASET_ELEMENTS * IMAGE_SIZE"
  shows "decode_chunks f32 img i (canvas_before img i) buffer =
           decode_chunks f32 img (i + 1) (canvas_before img (Suc i))
             (take (i * (chunkSize * IMAGE_SIZE)) buffer
                @ map (\<lambda>j. f32 (real (unat (chunk_imageData img i ! (j * 4))) / 255))
                    [0..<chunkSize * IMAGE_SIZE]
                @ drop (i * (chunkSize * IMAGE_SIZE) + chunkSize * IMAGE_SIZE) buffer)"
proof -
  define L where "L = chunkSize * IMAGE_SIZE"
  define a where "a = i * L"
  have N: "NUM_DATASET_ELEMENTS * IMAGE_SIZE = 13 * L"
    by (simp add: thirteen_chunks L_def)
  have "(i + 1) * L \<le> 13 * L" using i by (intro mult_le_mono1) simp
  then have aL: "a + L \<le> 13 * L" by (simp add: a_def)
  have Lpos: "0 < L" using chunkSize_pos IMAGE_SIZE_pos by (simp add: L_def)
  have run: "i * chunkSize < NUM_DATASET_ELEMENTS"
    using i chunkSize_pos by (simp add: thirteen_chunks)
  have e1: "i * IMAGE_SIZE * chunkSize * 4 + IMAGE_SIZE * chunkSize * 4 = (a + L) * 4"
    by (simp add: a_def L_def algebra_simps)
  have e2: "NUM_DATASET_ELEMENTS * IMAGE_SIZE * 4 = (13 * L) * 4" by (simp only: N)
  have view: "\<not> (i * IMAGE_SIZE * chunkSize * 4 + IMAGE_SIZE * chunkSize * 4
                             > NUM_DATASET_ELEMENTS * IMAGE_SIZE * 4)"
    unfolding e1 e2 using aL by simp
  have draw: "drawImage img (i * chunkSize) chunkSize (canvas_before img i) = chunk_imageData img i"
    by (simp add: chunk_imageData_def)
  have ld: "length (chunk_imageData img i) = 4 * L"
    unfolding chunk_imageData_def length_canvas_before by (simp add: W L_def mult.commute)
  have gid: "getImageData (chunk_imageData img i) (naturalWidth img) chunkSize
               = Inr (chunk_imageData img i)"
    using chunkSize_pos IMAGE_SIZE_pos by (simp add: getImageData_def W)
  have wr: "write_chunk f32 (chunk_imageData img i) (i * IMAGE_SIZE * chunkSize)
              (IMAGE_SIZE * chunkSize) buffer
              = take a buffer
                  @ map (\<lambda>j. f32 (real (unat (chunk_imageData img i ! (j * 4))) / 255)) [0..<L]
                  @ drop (a + L) buffer"
  proof -
    have e: "i * IMAGE_SIZE * chunkSize = a" "IMAGE_SIZE * chunkSize = L"
      by (simp_all add: a_def L_def algebra_simps)
    show ?thesis
      unfolding e by (rule write_chunk_closed) (use ld aL lb N in simp_all)
  qed
  have cs: "canvas_before img (Suc i) = chunk_imageData img i"
    by (simp add: chunk_imageData_def)
  show ?thesis
    unfolding cs a_def[symmetric] L_def[symmetric]
    by (subst decode_chunks.simps)
       (simp only: run view if_True if_False Let_def draw gid sum.case wr a_def L_def)
qed

lemma decode_chunks_closed:
  assumes W: "naturalWidth img = IMAGE_SIZE"
  shows "i + k = 13 \<Longrightarrow> length buffer = NUM_DATASET_ELEMENTS * IMAGE_SIZE \<Longrightarrow>
         decode_chunks f32 img i (canvas_before img i) buffer =
           Inr (take (i * (chunkSize * IMAGE_SIZE)) buffer
                  @ concat (map (\<lambda>m. map (\<lambda>j. f32 (real (unat (chunk_imageData img m ! (j * 4))) / 255))
                                         [0..<chunkSize * IMAGE_SIZE]) [i..<13]))"
proof (induction k arbitrary: i buffer)
  case 0
  then have i: "i = 13" by simp
  have "\<not> i * chunkSize < NUM_DATASET_ELEMENTS" by (simp add: i thirteen_chunks)
  then have "decode_chunks f32 img i (canvas_before img i) buffer = Inr buffer"
    by (subst decode_chunks.simps) (simp only: if_False)
  moreover have "length buffer = 13 * (chunkSize * IMAGE_SIZE)"
    using "0.prems"(2) by (simp add: thirteen_chunks)
  ultimately show ?case by (simp add: i)
next
  case (Suc k)
  define L where "L = chunkSize * IMAGE_SIZE"
  define g where "g = (\<lambda>m. map (\<lambda>j. f32 (real (unat (chunk_imageData img m ! (j * 4))) / 255)) [0..<L])"
  define buf where "buf = take (i * L) buffer @ g i @ drop (i * L + L) buffer"
  have i: "i < 13" using Suc.prems(1) by simp
  have N: "length buffer = 13 * L" using Suc.prems(2) by (simp add: thirteen_chunks L_def)
  have "(i + 1) * L \<le> 13 * L" using i by (intro mult_le_mono1) simp
  then have aL: "i * L + L \<le> length buffer" using N by simp
  have lg: "length (g i) = L" by (simp add: g_def)
  have la: "length (take (i * L) buffer) = i * L" using aL by simp
  have lbuf: "length buf = NUM_DATASET_ELEMENTS * IMAGE_SIZE"
    unfolding buf_def using aL lg la Suc.prems(2) by simp
  have tk: "take ((i + 1) * L) buf = take (i * L) buffer @ g i"
    unfolding buf_def using la lg by simp
  have step: "decode_chunks f32 img i (canvas_before img i) buffer
                = decode_chunks f32 img (i + 1) (canvas_before img (i + 1)) buf"
    using chunk_step[OF W i Suc.prems(2), of f32] by (simp add: buf_def g_def L_def)
  have IH: "decode_chunks f32 img (i + 1) (canvas_before img (i + 1)) buf
              = Inr (take ((i + 1) * L) buf @ concat (map g [i + 1..<13]))"
    using Suc.IH[of "i + 1" buf] Suc.prems(1) lbuf by (simp add: g_def L_def)
  have up: "[i..<13] = i # [i + 1..<13]" using i by (simp add: upt_conv_Cons)
  show ?case
    unfolding step IH tk L_def[symmetric] g_def[symmetric] up by simp
qed

lemma decode_sprite_closed:
  assumes W: "naturalWidth img = IMAGE_SIZE"
  shows "decode_sprite f32 img =
           Inr (concat (map (\<lambda>m. map (\<lambda>j. f32 (real (unat (chunk_imageData img m ! (j * 4))) / 255))
                                   [0..<chunkSize * IMAGE_SIZE]) [0..<13]))"
proof -
  have "decode_chunks f32 img 0 (canvas_before img 0)
          (replicate (NUM_DATASET_ELEMENTS * IMAGE_SIZE) 0) =
           Inr (take (0 * (chunkSize * IMAGE_SIZE)) (replicate (NUM_DATASET_ELEMENTS * IMAGE_SIZE) 0)
                  @ concat (map (\<lambda>m. map (\<lambda>j. f32 (real (unat (chunk_imageData img m ! (j * 4))) / 255))
                                         [0..<chunkSize * IMAGE_SIZE]) [0..<13]))"
    by (rule decode_chunks_closed[OF W]) simp_all
  then show ?thesis by (simp add: decode_sprite_def)
qed

lemma decoded_nth:
  assumes "i < 13" "j < chunkSize * IMAGE_SIZE"
  shows "concat (map (\<lambda>m. map (\<lambda>j. f32 (real (unat (chunk_imageData img m ! (j * 4))) / 255))
                           [0..<chunkSize * IMAGE_SIZE]) [0..<13])
           ! (i * chunkSize * IMAGE_SIZE + j)
         = f32 (real (unat (chunk_imageData img i ! (j * 4))) / 255)"
proof -
  let ?g = "\<lambda>m. map (\<lambda>j. f32 (real (unat (chunk_imageData img m ! (j * 4))) / 255))
                    [0..<chunkSize * IMAGE_SIZE]"
  have "concat (map ?g [0..<13]) ! (i * (chunkSize * IMAGE_SIZE) + j) = map ?g [0..<13] ! i ! j"
    by (rule concat_nth_blocks) (use assms in auto)
  also have "\<dots> = f32 (real (unat (chunk_imageData img i ! (j * 4))) / 255)"
    using assms by simp
  finally show ?thesis by (simp add: mult.assoc)
qed

lemma decoded_length:
  "length (concat (map (\<lambda>m. map (\<lambda>j. f32 (real (unat (chunk_imageData img m ! (j * 4))) / 255))
                           [0..<chunkSize * IMAGE_SIZE]) [0..<13]))
     = NUM_DATASET_ELEMENTS * IMAGE_SIZE"
proof -
  let ?g = "\<lambda>m. map (\<lambda>j. f32 (real (unat (chunk_imageData img m ! (j * 4))) / 255))
                    [0..<chunkSize * IMAGE_SIZE]"
  have "length (concat (map ?g [0..<13])) = length (map ?g [0..<13]) * (chunkSize * IMAGE_SIZE)"
    by (rule length_concat_blocks) auto
  then show ?thesis by (simp add: thirteen_chunks)
qed

lemma chunk_imageData_row:
  assumes W: "naturalWidth img = IMAGE_SIZE"
    and j: "j < chunkSize * IMAGE_SIZE"
    and p: "4 * (i * chunkSize * IMAGE_SIZE + j) < length (pixels img)"
  shows "chunk_imageData img i ! (j * 4) = pixels img ! (4 * (i * chunkSize * IMAGE_SIZE + j))"
proof -
  define off where "off = i * chunkSize * (4 * IMAGE_SIZE)"
  define src where "src = take (chunkSize * (4 * IMAGE_SIZE)) (drop off (pixels img))"
  have o: "off + j * 4 = 4 * (i * chunkSize * IMAGE_SIZE + j)"
    by (simp add: off_def algebra_simps)
  have cd: "chunk_imageData img i = src @ drop (length src) (canvas_before img i)"
    by (simp add: chunk_imageData_def drawImage_def Let_def W src_def off_def)
  have j1: "j * 4 < chunkSize * (4 * IMAGE_SIZE)" using j by (simp add: algebra_simps)
  have j2: "off + j * 4 < length (pixels img)" using p o by simp
  have ls: "j * 4 < length src" unfolding src_def using j1 j2 by simp
  have "chunk_imageData img i ! (j * 4) = src ! (j * 4)"
    unfolding cd using ls by (simp add: nth_append)
  also have "\<dots> = pixels img ! (off + j * 4)"
    unfolding src_def using j1 j2 by simp
  finally show ?thesis by (simp only: o)
qed

subsection \<open>Claim C7: the chunks of the sprite decoder\<close>

lemma decoded_existing_rows:
  assumes W: "naturalWidth img = IMAGE_SIZE"
    and len: "length (pixels img) = 4 * naturalWidth img * naturalHeight img"
    and p: "p < min (naturalHeight img) NUM_DATASET_ELEMENTS * IMAGE_SIZE"
  shows "concat (map (\<lambda>m. map (\<lambda>j. f32 (real (unat (chunk_imageData img m ! (j * 4))) / 255))
                           [0..<chunkSize * IMAGE_SIZE]) [0..<13]) ! p
         = f32 (real (unat (pixels img ! (4 * p))) / 255)"
proof -
  define L where "L = chunkSize * IMAGE_SIZE"
  define i where "i = p div L"
  define j where "j = p mod L"
  have Lpos: "0 < L" using chunkSize_pos IMAGE_SIZE_pos by (simp add: L_def)
  have pij: "p = i * L + j" by (simp add: i_def j_def)
  have j: "j < L" using Lpos by (simp add: j_def)
  have "p < NUM_DATASET_ELEMENTS * IMAGE_SIZE"
  proof -
    have "min (naturalHeight img) NUM_DATASET_ELEMENTS * IMAGE_SIZE
            \<le> NUM_DATASET_ELEMENTS * IMAGE_SIZE"
      by (intro mult_le_mono1) simp
    then show ?thesis using p by linarith
  qed
  then have "p < 13 * L" by (simp add: thirteen_chunks L_def)
  then have i: "i < 13" using Lpos by (simp add: i_def less_mult_imp_div_less)
  have "p < naturalHeight img * IMAGE_SIZE"
  proof -
    have "min (naturalHeight img) NUM_DATASET_ELEMENTS * IMAGE_SIZE
            \<le> naturalHeight img * IMAGE_SIZE"
      by (intro mult_le_mono1) simp
    then show ?thesis using p by linarith
  qed
  then have inp: "4 * p < length (pixels img)" by (simp add: len W mult.commute)
  have e: "i * chunkSize * IMAGE_SIZE + j = p" by (simp add: pij L_def mult.assoc)
  have "concat (map (\<lambda>m. map (\<lambda>j. f32 (real (unat (chunk_imageData img m ! (j * 4))) / 255))
                           [0..<chunkSize * IMAGE_SIZE]) [0..<13]) ! (i * chunkSize * IMAGE_SIZE + j)
          = f32 (real (unat (chunk_imageData img i ! (j * 4))) / 255)"
    by (rule decoded_nth[OF i]) (use j in \<open>simp add: L_def\<close>)
  moreover have "chunk_imageData img i ! (j * 4) = pixels img ! (4 * (i * chunkSize * IMAGE_SIZE + j))"
    by (rule chunk_imageData_row[OF W]) (use j inp e in \<open>simp_all add: L_def\<close>)
  ultimately show ?thesis by (simp only: e)
qed

text \<open>
  Claim C7, as amended.  Whatever the number of rows of the sprite (784 pixels wide and
  opaque), the decoder runs the thirteen chunks of the fixed count \<open>65000 = 13 * 5000\<close>,
  each over all 5000 rows of the canvas: there is no shorter last chunk.  It succeeds with a
  buffer of \<open>65000 * 784\<close> values and writes nowhere else; the value at offset
  \<open>chunk_index * chunk_size * 784 + j\<close> is the red byte of pixel \<open>j\<close> of what the
  canvas returns for that chunk, divided by 255, as a 32-bit float stores it; and for every
  pixel of a row that the sprite has among the first 65000, that is the red byte of the
  sprite's own pixel.
\<close>

theorem decoder_thirteen_chunks:
  "naturalWidth img = IMAGE_SIZE \<and> opaque img \<and>
   length (pixels img) = 4 * naturalWidth img * naturalHeight img \<longrightarrow>
     NUM_DATASET_ELEMENTS = 13 * chunkSize \<and>
     (let decoded =
            concat (map (\<lambda>i. map (\<lambda>j. f32 (real (unat (chunk_imageData img i ! (j * 4))) / 255))
                                  [0..<chunkSize * IMAGE_SIZE]) [0..<13])
      in loadImages f32 (OnLoad img) = Inr decoded \<and>
         length decoded = NUM_DATASET_ELEMENTS * IMAGE_SIZE \<and>
         (\<forall>i < 13. \<forall>j < chunkSize * IMAGE_SIZE.
            decoded ! (i * chunkSize * IMAGE_SIZE + j)
              = f32 (real (unat (chunk_imageData img i ! (j * 4))) / 255)) \<and>
         (\<forall>p < min (naturalHeight img) NUM_DATASET_ELEMENTS * IMAGE_SIZE.
            decoded ! p = f32 (real (unat (pixels img ! (4 * p))) / 255)))"
proof (intro impI conjI)
  assume a: "naturalWidth img = IMAGE_SIZE \<and> opaque img \<and>
   length (pixels img) = 4 * naturalWidth img * naturalHeight img"
  show "NUM_DATASET_ELEMENTS = 13 * chunkSize" by (rule thirteen_chunks)
  show "let decoded =
            concat (map (\<lambda>i. map (\<lambda>j. f32 (real (unat (chunk_imageData img i ! (j * 4))) / 255))
                                  [0..<chunkSize * IMAGE_SIZE]) [0..<13])
      in loadImages f32 (OnLoad img) = Inr decoded \<and>
         length decoded = NUM_DATASET_ELEMENTS * IMAGE_SIZE \<and>
         (\<forall>i < 13. \<forall>j < chunkSize * IMAGE_SIZE.
            decoded ! (i * chunkSize * IMAGE_SIZE + j)
              = f32 (real (unat (chunk_imageData img i ! (j * 4))) / 255)) \<and>
         (\<forall>p < min (naturalHeight img) NUM_DATASET_ELEMENTS * IMAGE_SIZE.
            decoded ! p = f32 (real (unat (pixels img ! (4 * p))) / 255))"
    unfolding Let_def
  proof (intro conjI allI impI)
    show "loadImages f32 (OnLoad img) =
      Inr (concat (map (\<lambda>i. map (\<lambda>j. f32 (real (unat (chunk_imageData img i ! (j * 4))) / 255))
                                 [0..<chunkSize * IMAGE_SIZE]) [0..<13]))"
      using decode_sprite_closed[of img f32] a by (simp add: loadImages_def)
    show "length (concat (map (\<lambda>i. map (\<lambda>j. f32 (real (unat (chunk_imageData img i ! (j * 4))) / 255))
                                 [0..<chunkSize * IMAGE_SIZE]) [0..<13]))
            = NUM_DATASET_ELEMENTS * IMAGE_SIZE"
      by (rule decoded_length)
  next
    fix i j :: nat assume "i < 13" "j < chunkSize * IMAGE_SIZE"
    then show "concat (map (\<lambda>i. map (\<lambda>j. f32 (real (unat (chunk_imageData img i ! (j * 4))) / 255))
                                 [0..<chunkSize * IMAGE_SIZE]) [0..<13])
                 ! (i * chunkSize * IMAGE_SIZE + j)
               = f32 (real (unat (chunk_imageData img i ! (j * 4))) / 255)"
      by (rule decoded_nth)
  next
    fix p :: nat assume "p < min (naturalHeight img) NUM_DATASET_ELEMENTS * IMAGE_SIZE"
    then show "concat (map (\<lambda>i. map (\<lambda>j. f32 (real (unat (chunk_imageData img i ! (j * 4))) / 255))
                                 [0..<chunkSize * IMAGE_SIZE]) [0..<13]) ! p
               = f32 (real (unat (pixels img ! (4 * p))) / 255)"
      using decoded_existing_rows[of img p f32] a by simp
  qed
qed

theorem decoder_thirteen_chunks_witness:
  "opaque \<lparr> naturalWidth = 784, naturalHeight = 65000, pixels = replicate (4 * 784 * 65000) 255 \<rparr> \<and>
   (\<exists>decoded.
      loadImages (\<lambda>v. v)
        (OnLoad \<lparr> naturalWidth = 784, naturalHeight = 65000,
                  pixels = replicate (4 * 784 * 65000) 255 \<rparr>) = Inr decoded \<and>
      length decoded = NUM_DATASET_ELEMENTS * IMAGE_SIZE \<and>
      decoded ! 0 = 1 \<and> decoded ! (65000 * 784 - 1) = 1)"
proof -
  let ?img = "\<lparr> naturalWidth = 784, naturalHeight = 65000,
                 pixels = replicate (4 * 784 * 65000) (255 :: uint8) \<rparr>"
  have o: "opaque ?img" by (auto simp: opaque_def)
  have h: "naturalWidth ?img = IMAGE_SIZE \<and> opaque ?img \<and>
           length (pixels ?img) = 4 * naturalWidth ?img * naturalHeight ?img"
    using o by (simp add: IMAGE_SIZE_def)
  note T = decoder_thirteen_chunks[of ?img "\<lambda>v. v", unfolded Let_def]
  from T h obtain decoded where
    d: "loadImages (\<lambda>v. v) (OnLoad ?img) = Inr decoded"
       "length decoded = NUM_DATASET_ELEMENTS * IMAGE_SIZE"
       "\<forall>p < min (naturalHeight ?img) NUM_DATASET_ELEMENTS * IMAGE_SIZE.
            decoded ! p = real (unat (pixels ?img ! (4 * p))) / 255"
    by blast
  have m: "min (naturalHeight ?img) NUM_DATASET_ELEMENTS * IMAGE_SIZE = 65000 * 784"
    by (simp add: NUM_DATASET_ELEMENTS_def IMAGE_SIZE_def)
  have "decoded ! 0 = 1" using d(3) unfolding m by simp
  moreover have "decoded ! (65000 * 784 - 1) = 1" using d(3) unfolding m by simp
  ultimately show ?thesis using o d(1,2) by blast
qed

text \<open>
  The claim as it was stated fails for a sprite whose number of rows is not a multiple of
  the chunk size: with a sprite of one white row the dataset has one example, yet chunk 1,
  which has no row of the sprite left, works through the 5000 rows of the canvas all the
  same and writes, at offset \<open>1 * 5000 * 784\<close>, what chunk 0 left there: the first pixel
  of the sprite.
\<close>

theorem decoder_thirteen_chunks_counterexample:
  "map_sum id (\<lambda>decoded. decoded ! (1 * chunkSize * IMAGE_SIZE))
     (loadImages (\<lambda>v. v)
        (OnLoad \<lparr> naturalWidth = 784, naturalHeight = 1, pixels = replicate (4 * 784) 255 \<rparr>))
   = Inr 1"
proof -
  let ?img = "\<lparr> naturalWidth = 784, naturalHeight = 1, pixels = replicate (4 * 784) (255 :: uint8) \<rparr>"
  have W: "naturalWidth ?img = IMAGE_SIZE" by (simp add: IMAGE_SIZE_def)
  have c1: "canvas_before ?img 1 = replicate 3136 255 @ drop 3136 (replicate (4 * 784 * chunkSize) 0)"
    by (simp add: drawImage_def chunkSize_def)
  have c2: "chunk_imageData ?img 1 = canvas_before ?img 1"
    unfolding chunk_imageData_def
    by (subst canvas_before.simps(2)) (simp add: drawImage_def chunkSize_def del: canvas_before.simps)
  have z: "chunk_imageData ?img 1 ! (0 * 4) = 255"
    unfolding c2 c1 by (simp add: nth_append)
  have n: "concat (map (\<lambda>m. map (\<lambda>j. real (unat (chunk_imageData ?img m ! (j * 4))) / 255)
                           [0..<chunkSize * IMAGE_SIZE]) [0..<13])
             ! (1 * chunkSize * IMAGE_SIZE + 0)
           = real (unat (chunk_imageData ?img 1 ! (0 * 4))) / 255"
    using decoded_nth[of 1 0 "\<lambda>v. v" ?img] by (simp add: chunkSize_def IMAGE_SIZE_def)
  show ?thesis
    using decode_sprite_closed[OF W, of "\<lambda>v. v"] n z
    by (simp add: loadImages_def)
qed

end
